theory Spec2Isabelle
  imports Main "HOL-Library.Log_Nat"
begin

section \<open>The completion bridge of the Codeium Chrome extension\<close>

text \<open>
  The development embeds the two source files of the bridge:
  \<^item> \<^verbatim>\<open>common.ts\<close>: the credential poller \<^verbatim>\<open>ApiKeyPoller\<close>, the background-side
    \<^verbatim>\<open>LanguageServerServiceWorkerClient\<close> (one per channel) and the foreground-side
    \<^verbatim>\<open>LanguageServerClient\<close>;
  \<^item> the service worker script: the list \<^verbatim>\<open>authStates\<close>, the registry \<^verbatim>\<open>clientMap\<close> and the
    listeners registered on \<^verbatim>\<open>chrome.runtime\<close>.

  Both sides are single-threaded event loops. A listener runs without interruption up to
  its first \<^verbatim>\<open>await\<close> on an external call, so each side is a state record and one function per
  listener (or per resumption of a suspended listener); a run of the process is a list of
  events folded over the state. Calls into the browser and into the RPC library are effects:
  the state keeps a list of the calls made, in order. Three kinds of external call decide
  what a listener does next, and their outcome is an input of the model: the upstream
  completion call (fulfilled or rejected), \<^verbatim>\<open>chrome.runtime.sendMessage\<close> awaited inside the
  \<^verbatim>\<open>catch\<close> of the endpoint (resolved or rejected), and \<^verbatim>\<open>fromJsonString\<close> (a message or a
  throw). A listener that throws ends there: what it did before stays, nothing after it happens.
\<close>

subsection \<open>JavaScript numbers\<close>

text \<open>
  The request counter is a JavaScript number, a double. On natural numbers a double is exact
  up to \<open>2 ^ 53\<close>; above, the value is rounded to 53 significant bits, ties to even.
  \<open>round_double n\<close> is the double nearest to the natural number \<open>n\<close> (for \<open>n\<close> below the
  range where doubles overflow).
\<close>

definition round_double :: "nat \<Rightarrow> nat" where
  "round_double n =
     (if n < 2 ^ 53 then n
      else let u = 2 ^ (floorlog 2 n - 53); q = n div u; r = n mod u
           in if 2 * r < u then q * u
              else if u < 2 * r then (q + 1) * u
              else (if even q then q else q + 1) * u)"

text \<open>The prefix increment \<^verbatim>\<open>++x\<close> of a number holding a natural value.\<close>

definition js_incr :: "nat \<Rightarrow> nat" where
  "js_incr n = round_double (n + 1)"

text \<open>
  \<^verbatim>\<open>Number(v)\<close> for \<open>v\<close> a non-negative \<^verbatim>\<open>bigint\<close> or \<^verbatim>\<open>undefined\<close>; \<^verbatim>\<open>Number(undefined)\<close> is
  \<^verbatim>\<open>NaN\<close>, which a \<^verbatim>\<open>Map\<close> accepts as a key equal to itself.
\<close>

datatype jsnumber = Finite nat | NaN

definition Number :: "nat option \<Rightarrow> jsnumber" where
  "Number v = (case v of None \<Rightarrow> NaN | Some n \<Rightarrow> Finite (round_double n))"

subsection \<open>Messages of the upstream service and of the channel\<close>

text \<open>
  The protobuf message classes are generated code outside the two source files. Of a
  request the bridge reads only \<^verbatim>\<open>metadata\<close>; the remaining fields are kept as one opaque
  string. \<^verbatim>\<open>Metadata\<close> has the fields that \<^verbatim>\<open>getMetadata\<close> fills in.
\<close>

record IdeInfo =
  ideName :: string
  ideVersion :: string

record Metadata =
  ideName :: string
  ideVersion :: string
  extensionName :: string
  extensionVersion :: string
  apiKey :: string
  locale_ :: string
  sessionId :: string
  requestId :: nat
  userAgent :: string
  url :: string

record GetCompletionsRequest =
  metadata :: "Metadata option"
  document :: string

record AcceptCompletionRequest =
  metadata :: "Metadata option"
  completionId :: string

text \<open>
  The JSON conversions of the message classes (\<^verbatim>\<open>toJsonString\<close>, \<^verbatim>\<open>fromJsonString\<close>) are
  parameters of the model; \<open>'r\<close> is the type of \<^verbatim>\<open>GetCompletionsResponse\<close>.
  \<^verbatim>\<open>fromJsonString\<close> throws on a text that does not decode: its result is then \<open>None\<close>.
\<close>

record 'r json =
  requestToJson :: "GetCompletionsRequest \<Rightarrow> string"
  requestFromJson :: "string \<Rightarrow> GetCompletionsRequest option"
  acceptToJson :: "AcceptCompletionRequest \<Rightarrow> string"
  acceptFromJson :: "string \<Rightarrow> AcceptCompletionRequest option"
  responseToJson :: "'r \<Rightarrow> string"
  responseFromJson :: "string \<Rightarrow> 'r option"

text \<open>How a call of an asynchronous function ends: it returns a value, or it is rejected.\<close>

datatype 'a returned = Returns 'a | Throws

text \<open>
  The frames of the channel. The constructor stands for the field \<^verbatim>\<open>kind\<close>; a frame of any
  other kind is \<open>OtherRequest\<close> or \<open>OtherResponse\<close>.
\<close>

datatype LanguageServerWorkerRequest =
    GetCompletionsRequestMessage jsnumber string
  | AcceptCompletionRequestMessage string
  | OtherRequest string

datatype LanguageServerWorkerResponse =
    GetCompletionsResponseMessage jsnumber "string option"
  | OtherResponse string

subsection \<open>The credential poller\<close>

text \<open>
  \<^verbatim>\<open>Storage['user']\<close> is declared outside the source files; its fields are those the
  service worker stores at login.
\<close>

record User =
  apiKey :: "string option"
  name :: "string option"
  userPortalUrl :: "string option"

text \<open>
  \<^verbatim>\<open>getApiKey\<close> asks the extension for the user and returns \<^verbatim>\<open>user?.apiKey\<close>. The argument
  is the response of the extension, \<open>None\<close> for \<^verbatim>\<open>undefined\<close>.
\<close>

definition getApiKey :: "User option \<Rightarrow> string option" where
  "getApiKey user = (case user of None \<Rightarrow> None | Some u \<Rightarrow> User.apiKey u)"

text \<open>
  The field \<^verbatim>\<open>apiKey\<close> holds the promise of the first fetch from construction until the
  first timer callback has its answer, and a string or \<^verbatim>\<open>undefined\<close> from then on.
\<close>

datatype apiKey_field = InitialPromise | Value "string option"

record ApiKeyPoller =
  apiKey :: apiKey_field

definition new_ApiKeyPoller :: ApiKeyPoller where
  "new_ApiKeyPoller = \<lparr>ApiKeyPoller.apiKey = InitialPromise\<rparr>"

text \<open>
  The timer callback \<^verbatim>\<open>this.apiKey = await getApiKey(extensionId)\<close>, at the moment the
  extension's response \<open>user\<close> has arrived.
\<close>

definition ApiKeyPoller_tick :: "ApiKeyPoller \<Rightarrow> User option \<Rightarrow> ApiKeyPoller" where
  "ApiKeyPoller_tick p user = p\<lparr>ApiKeyPoller.apiKey := Value (getApiKey user)\<rparr>"

subsection \<open>The background side: state\<close>

text \<open>A channel (\<^verbatim>\<open>chrome.runtime.Port\<close>): an object identity and its name.\<close>

record Port =
  portId :: nat
  name :: string

text \<open>
  \<^verbatim>\<open>LanguageServerServiceWorkerClient\<close>. The field \<^verbatim>\<open>abortController\<close> is a reference: the
  address of an abort signal in the store \<open>signals\<close> below, \<open>None\<close> for \<^verbatim>\<open>undefined\<close>. The RPC
  client handle of the endpoint is not part of the model: making it is taken to succeed.
\<close>

record LanguageServerServiceWorkerClient =
  sessionId :: string
  abortController :: "nat option"

text \<open>Values the upstream call can be rejected with; \<^verbatim>\<open>Code\<close> is the enumeration of the RPC library.\<close>

datatype Code =
    Canceled | Unknown | InvalidArgument | DeadlineExceeded | NotFound | AlreadyExists
  | PermissionDenied | ResourceExhausted | FailedPrecondition | Aborted | OutOfRange
  | Unimplemented | Internal | Unavailable | DataLoss | Unauthenticated

datatype thrown = ConnectError Code string | OtherError string

datatype 'r settled = Fulfilled 'r | RejectedWith thrown

text \<open>Calls made on the RPC client, with the options passed.\<close>

datatype upstream_call =
    GetCompletionsCall GetCompletionsRequest nat "(string \<times> string) list"
  | AcceptCompletionCall AcceptCompletionRequest "(string \<times> string) list"

text \<open>
  A \<^verbatim>\<open>getCompletions\<close> listener suspended at the upstream call. It holds the port and the
  request id of its frame, the endpoint it called (\<^verbatim>\<open>client\<close>, an address in \<open>endpoints\<close>) and
  the signal it passed upstream (\<^verbatim>\<open>signal\<close>, an address in \<open>signals\<close>).
\<close>

record suspended =
  port :: Port
  requestId :: jsnumber
  client :: nat
  signal :: nat

record process_message =
  type :: string
  message :: string

text \<open>
  The state of the service worker: the two module-level variables, the store of endpoint
  objects and of abort signals (\<open>True\<close> for an aborted signal), the suspended listeners, and
  the effects: calls of the RPC client, \<^verbatim>\<open>port.postMessage\<close>, \<^verbatim>\<open>chrome.runtime.sendMessage\<close>,
  \<^verbatim>\<open>console.log\<close> and \<^verbatim>\<open>login\<close>.
\<close>

record background =
  authStates :: "string list"
  clientMap :: "string \<rightharpoonup> nat"
  endpoints :: "LanguageServerServiceWorkerClient list"
  signals :: "bool list"
  inflight :: "suspended list"
  upstream :: "upstream_call list"
  outbox :: "(Port \<times> LanguageServerWorkerResponse) list"
  status :: "process_message list"
  console :: "string list"
  logins :: "string list"

definition init_background :: background where
  "init_background =
     \<lparr>authStates = [], clientMap = Map.empty, endpoints = [], signals = [], inflight = [],
      upstream = [], outbox = [], status = [], console = [], logins = []\<rparr>"

subsection \<open>The background side: the endpoint\<close>

text \<open>
  \<^verbatim>\<open>getHeaders\<close>; the first argument is the field \<^verbatim>\<open>sessionId\<close> of the endpoint. The
  result object is the list of its entries.
\<close>

definition getHeaders :: "string \<Rightarrow> string option \<Rightarrow> (string \<times> string) list" where
  "getHeaders sid key =
     (case key of
        None \<Rightarrow> []
      | Some k \<Rightarrow> [(''Authorization'', ''Basic '' @ k @ ''-'' @ sid)])"

text \<open>\<^verbatim>\<open>this.abortController?.abort()\<close> on the store of signals.\<close>

definition abort :: "bool list \<Rightarrow> nat option \<Rightarrow> bool list" where
  "abort ss ctl = (case ctl of None \<Rightarrow> ss | Some t \<Rightarrow> ss[t := True])"

text \<open>
  The endpoint's \<^verbatim>\<open>getCompletions\<close> up to the upstream call, on the endpoint at address \<open>a\<close>:
  abort the controller held, store a new one, issue the call with its signal and the
  headers. The result is the address of the new signal. (The source suspends once more
  between the new controller and the call, at \<^verbatim>\<open>await this.client\<close>; a call issued with a
  signal aborted in between is rejected, as is a call aborted after it was issued.)
\<close>

definition worker_getCompletions_call ::
    "background \<Rightarrow> nat \<Rightarrow> GetCompletionsRequest \<Rightarrow> nat \<times> background" where
  "worker_getCompletions_call st a request =
     (let this = endpoints st ! a;
          aborted = abort (signals st) (abortController this);
          s = length aborted;
          headers = getHeaders (LanguageServerServiceWorkerClient.sessionId this)
                      (map_option Metadata.apiKey (GetCompletionsRequest.metadata request))
      in (s, st\<lparr>signals := aborted @ [False],
                 endpoints := (endpoints st)[a := this\<lparr>abortController := Some s\<rparr>],
                 upstream := upstream st @ [GetCompletionsCall request s headers]\<rparr>))"

text \<open>
  \<^verbatim>\<open>console.log\<close> of a failure message followed by the call of \<^verbatim>\<open>chrome.runtime.sendMessage\<close>.
\<close>

definition report :: "background \<Rightarrow> string \<Rightarrow> background" where
  "report st msg =
     st\<lparr>console := console st @ [msg],
        status := status st @ [\<lparr>type = ''error'', message = msg\<rparr>]\<rparr>"

text \<open>
  The rest of the endpoint's \<^verbatim>\<open>getCompletions\<close>, once the upstream call made with signal \<open>s\<close>
  has settled: the \<^verbatim>\<open>try\<close> and its \<^verbatim>\<open>catch\<close>. The result is the value returned, \<open>None\<close> for
  \<^verbatim>\<open>undefined\<close>. \<open>sent\<close> tells whether the promise of \<^verbatim>\<open>chrome.runtime.sendMessage\<close> resolves, if
  that call is made: the source awaits it inside the \<^verbatim>\<open>catch\<close>, so when it is rejected the
  rejection leaves \<^verbatim>\<open>getCompletions\<close> and the \<^verbatim>\<open>return\<close> after it is not reached.
\<close>

definition worker_getCompletions_settle ::
    "background \<Rightarrow> nat \<Rightarrow> 'r settled \<Rightarrow> bool \<Rightarrow> 'r option returned \<times> background" where
  "worker_getCompletions_settle st s outcome sent =
     (case outcome of
        Fulfilled r \<Rightarrow> (Returns (Some r), st)
      | RejectedWith err \<Rightarrow>
          if signals st ! s then (Returns None, st)
          else (case err of
                  ConnectError code msg \<Rightarrow>
                    if code \<noteq> Canceled
                    then (if sent then Returns None else Throws, report st msg)
                    else (Returns None, st)
                | OtherError msg \<Rightarrow>
                    (if sent then Returns None else Throws, report st msg)))"

text \<open>The endpoint's \<^verbatim>\<open>acceptedLastCompletion\<close> up to the upstream call, and its \<^verbatim>\<open>catch\<close>.\<close>

definition worker_acceptedLastCompletion_call ::
    "background \<Rightarrow> nat \<Rightarrow> AcceptCompletionRequest \<Rightarrow> background" where
  "worker_acceptedLastCompletion_call st a request =
     (let this = endpoints st ! a;
          headers = getHeaders (LanguageServerServiceWorkerClient.sessionId this)
                      (map_option Metadata.apiKey (AcceptCompletionRequest.metadata request))
      in st\<lparr>upstream := upstream st @ [AcceptCompletionCall request headers]\<rparr>)"

definition thrown_message :: "thrown \<Rightarrow> string" where
  "thrown_message err = (case err of ConnectError code msg \<Rightarrow> msg | OtherError msg \<Rightarrow> msg)"

definition worker_acceptedLastCompletion_settle ::
    "background \<Rightarrow> thrown option \<Rightarrow> background" where
  "worker_acceptedLastCompletion_settle st outcome =
     (case outcome of
        None \<Rightarrow> st
      | Some err \<Rightarrow> st\<lparr>console := console st @ [thrown_message err]\<rparr>)"

subsection \<open>The background side: the registry and its listeners\<close>

text \<open>
  \<^verbatim>\<open>clientMap.get(port.name)\<close>: the address of the endpoint registered under the name, if
  any. An address in \<open>clientMap\<close> always lies in the store (lemma \<open>registry_inv_run\<close> below);
  the bound is tested so that the function is defined on every state.
\<close>

definition clientMap_get :: "background \<Rightarrow> string \<Rightarrow> nat option" where
  "clientMap_get st n =
     (case clientMap st n of
        None \<Rightarrow> None
      | Some a \<Rightarrow> if a < length (endpoints st) then Some a else None)"

text \<open>The listener of \<^verbatim>\<open>onConnectExternal\<close> and the \<^verbatim>\<open>onDisconnect\<close> listener it registers.\<close>

definition onConnectExternal :: "background \<Rightarrow> Port \<Rightarrow> background" where
  "onConnectExternal st p =
     st\<lparr>endpoints := endpoints st @ [\<lparr>sessionId = name p, abortController = None\<rparr>],
        clientMap := (clientMap st)(name p \<mapsto> length (endpoints st))\<rparr>"

definition onDisconnect :: "background \<Rightarrow> Port \<Rightarrow> background" where
  "onDisconnect st p = st\<lparr>clientMap := (clientMap st)(name p := None)\<rparr>"

definition postMessage :: "background \<Rightarrow> Port \<Rightarrow> LanguageServerWorkerResponse \<Rightarrow> background" where
  "postMessage st p reply = st\<lparr>outbox := outbox st @ [(p, reply)]\<rparr>"

text \<open>
  The \<^verbatim>\<open>onMessage\<close> listener of a port, up to its first suspension. Without an endpoint
  \<^verbatim>\<open>client?.getCompletions(...)\<close> is \<^verbatim>\<open>undefined\<close>, its argument is not evaluated, and the
  reply is posted at once. With an endpoint the argument is evaluated first: when
  \<^verbatim>\<open>fromJsonString\<close> throws, the listener ends before the endpoint is called; otherwise the
  endpoint is called and the listener is suspended at the upstream call.
\<close>

definition onMessage :: "'r json \<Rightarrow> background \<Rightarrow> Port \<Rightarrow> LanguageServerWorkerRequest \<Rightarrow> background" where
  "onMessage js st p msg =
     (case msg of
        GetCompletionsRequestMessage rid request \<Rightarrow>
          (case clientMap_get st (name p) of
             None \<Rightarrow> postMessage st p (GetCompletionsResponseMessage rid None)
           | Some a \<Rightarrow>
               (case requestFromJson js request of
                  None \<Rightarrow> st
                | Some decoded \<Rightarrow>
                    (let (s, st1) = worker_getCompletions_call st a decoded
                     in st1\<lparr>inflight := inflight st1 @
                          [\<lparr>port = p, requestId = rid, client = a, signal = s\<rparr>]\<rparr>)))
      | AcceptCompletionRequestMessage request \<Rightarrow>
          (case clientMap_get st (name p) of
             None \<Rightarrow> st
           | Some a \<Rightarrow>
               (case acceptFromJson js request of
                  None \<Rightarrow> st
                | Some decoded \<Rightarrow> worker_acceptedLastCompletion_call st a decoded))
      | OtherRequest k \<Rightarrow> st\<lparr>console := console st @ [''Unrecognized message:'']\<rparr>)"

text \<open>
  The resumption of the listener suspended on signal \<open>s\<close>, when its upstream call settles:
  the endpoint's \<^verbatim>\<open>getCompletions\<close> returns and the reply is built and posted, or it is
  rejected and the listener ends without a reply. A promise settles once: the listener
  leaves \<open>inflight\<close>, and a signal no listener waits on resumes nothing.
\<close>

definition find_suspended :: "suspended list \<Rightarrow> nat \<Rightarrow> suspended option" where
  "find_suspended cs s = find (\<lambda>c. signal c = s) cs"

definition onSettled :: "'r json \<Rightarrow> background \<Rightarrow> nat \<Rightarrow> 'r settled \<Rightarrow> bool \<Rightarrow> background" where
  "onSettled js st s outcome sent =
     (case find_suspended (inflight st) s of
        None \<Rightarrow> st
      | Some c \<Rightarrow>
          (let (result, st1) = worker_getCompletions_settle st s outcome sent;
               st2 = st1\<lparr>inflight := filter (\<lambda>c. signal c \<noteq> s) (inflight st1)\<rparr>
           in case result of
                Throws \<Rightarrow> st2
              | Returns response \<Rightarrow>
                  postMessage st2 (port c)
                    (GetCompletionsResponseMessage (suspended.requestId c)
                       (map_option (responseToJson js) response))))"

subsection \<open>The background side: login correlation\<close>

text \<open>
  A message from outside the extension is an untyped object; the model keeps the fields the
  listener reads. \<open>token\<close> and \<open>state\<close> are \<open>None\<close> when the field is not a string.
\<close>

record external_message =
  type :: "string option"
  message :: "string option"
  token :: "string option"
  state :: "string option"

text \<open>A message from the extension's own pages, with \<^verbatim>\<open>payload.state\<close> and \<^verbatim>\<open>token\<close>.\<close>

record runtime_message =
  type :: "string option"
  payload_state :: string
  token :: string

text \<open>\<^verbatim>\<open>Array.prototype.indexOf\<close> (\<open>None\<close> for \<open>-1\<close>) and \<^verbatim>\<open>splice(i, 1)\<close>.\<close>

fun indexOf :: "'a list \<Rightarrow> 'a \<Rightarrow> nat option" where
  "indexOf [] y = None"
| "indexOf (x # xs) y = (if x = y then Some 0 else map_option Suc (indexOf xs y))"

definition splice1 :: "'a list \<Rightarrow> nat \<Rightarrow> 'a list" where
  "splice1 xs i = take i xs @ drop (Suc i) xs"

text \<open>
  \<^verbatim>\<open>login(token)\<close> exchanges the token for a credential through the registration
  collaborator and the storage, both outside the source files; the model records the call.
\<close>

definition login :: "background \<Rightarrow> string \<Rightarrow> background" where
  "login st t = st\<lparr>logins := logins st @ [t]\<rparr>"

text \<open>
  The listener of \<^verbatim>\<open>onMessageExternal\<close>. Its first four branches answer from the storage or
  set the icon and leave the state of the model as it is.
\<close>

definition onMessageExternal :: "background \<Rightarrow> external_message \<Rightarrow> background" where
  "onMessageExternal st m =
     (if external_message.type m = Some ''user'' then st
      else if external_message.type m = Some ''allowlist'' then st
      else if external_message.type m = Some ''error'' then st
      else if external_message.type m = Some ''success'' then st
      else (case (external_message.token m, external_message.state m) of
              (Some t, Some s) \<Rightarrow>
                (case indexOf (authStates st) s of
                   None \<Rightarrow> st\<lparr>console := console st @ [''Unexpected state: '' @ s]\<rparr>
                 | Some stateIndex \<Rightarrow>
                     login (st\<lparr>authStates := splice1 (authStates st) stateIndex\<rparr>) t)
            | _ \<Rightarrow> st\<lparr>console := console st @ [''Unexpected message:'']\<rparr>))"

text \<open>The listener of \<^verbatim>\<open>onMessage\<close>: a page registers a state, or logs in with a pasted token.\<close>

definition onRuntimeMessage :: "background \<Rightarrow> runtime_message \<Rightarrow> background" where
  "onRuntimeMessage st m =
     (if runtime_message.type m = Some ''state''
      then st\<lparr>authStates := authStates st @ [payload_state m]\<rparr>
      else if runtime_message.type m = Some ''manual''
      then login st (runtime_message.token m)
      else st\<lparr>console := console st @ [''Unrecognized message:'']\<rparr>)"

text \<open>
  The listener of \<^verbatim>\<open>onInstalled\<close>, given the stored user and the identifier that \<^verbatim>\<open>uuidv4\<close>
  returns: without a credential it registers the identifier as a state.
\<close>

definition onInstalled :: "background \<Rightarrow> User option \<Rightarrow> string \<Rightarrow> background" where
  "onInstalled st user uuid =
     (if getApiKey user = None then st\<lparr>authStates := authStates st @ [uuid]\<rparr> else st)"

subsection \<open>The background side: runs\<close>

datatype 'r event =
    ConnectExternal Port
  | Disconnect Port
  | Message Port LanguageServerWorkerRequest
  | Settled nat "'r settled" bool
  | AcceptSettled "thrown option"
  | MessageExternal external_message
  | RuntimeMessage runtime_message
  | Installed "User option" string

fun step :: "'r json \<Rightarrow> background \<Rightarrow> 'r event \<Rightarrow> background" where
  "step js st (ConnectExternal p) = onConnectExternal st p"
| "step js st (Disconnect p) = onDisconnect st p"
| "step js st (Message p msg) = onMessage js st p msg"
| "step js st (Settled s outcome sent) = onSettled js st s outcome sent"
| "step js st (AcceptSettled outcome) = worker_acceptedLastCompletion_settle st outcome"
| "step js st (MessageExternal m) = onMessageExternal st m"
| "step js st (RuntimeMessage m) = onRuntimeMessage st m"
| "step js st (Installed user uuid) = onInstalled st user uuid"

definition run :: "'r json \<Rightarrow> background \<Rightarrow> 'r event list \<Rightarrow> background" where
  "run js st es = foldl (step js) st es"

text \<open>
  The channels open after a list of events, from those open before. The browser keeps them,
  not the service worker.
\<close>

fun channels :: "Port list \<Rightarrow> 'r event list \<Rightarrow> Port list" where
  "channels ps [] = ps"
| "channels ps (ConnectExternal p # es) = channels (ps @ [p]) es"
| "channels ps (Disconnect p # es) = channels (removeAll p ps) es"
| "channels ps (e # es) = channels ps es"

text \<open>
  A run in which every session has one channel at a time: a channel is opened under a name
  no open channel has, and only an open channel is closed.
\<close>

fun one_channel_per_session :: "Port list \<Rightarrow> 'r event list \<Rightarrow> bool" where
  "one_channel_per_session ps [] = True"
| "one_channel_per_session ps (ConnectExternal p # es) =
     (name p \<notin> set (map name ps) \<and> one_channel_per_session (ps @ [p]) es)"
| "one_channel_per_session ps (Disconnect p # es) =
     (p \<in> set ps \<and> one_channel_per_session (removeAll p ps) es)"
| "one_channel_per_session ps (e # es) = one_channel_per_session ps es"

text \<open>
  The listeners suspended on a call of the endpoint at address \<open>a\<close>, respectively on a call
  for the session \<open>sid\<close>, whose signal has not fired.
\<close>

definition unfired_of_endpoint :: "background \<Rightarrow> nat \<Rightarrow> suspended list" where
  "unfired_of_endpoint st a =
     filter (\<lambda>c. client c = a \<and> \<not> signals st ! signal c) (inflight st)"

definition unfired_of_session :: "background \<Rightarrow> string \<Rightarrow> suspended list" where
  "unfired_of_session st sid =
     filter (\<lambda>c. name (port c) = sid \<and> \<not> signals st ! signal c) (inflight st)"

subsection \<open>The foreground side\<close>

text \<open>The values \<^verbatim>\<open>getMetadata\<close> reads from the page: \<^verbatim>\<open>navigator\<close> and \<^verbatim>\<open>window.location\<close>.\<close>

record Browser =
  language :: string
  userAgent :: string
  href :: string

text \<open>
  \<^verbatim>\<open>LanguageServerClient\<close>. A port is the number of the \<^verbatim>\<open>chrome.runtime.connect\<close> call that
  returned it. Every promise \<^verbatim>\<open>getCompletions\<close> returns has an entry in \<open>promises\<close>: \<open>None\<close>
  while it is pending, \<open>Some res\<close> once its resolver was called with \<open>res\<close>; the resolver
  stored in \<^verbatim>\<open>promiseMap\<close> is the index of its promise. \<open>connects\<close> and \<open>posted\<close> are the
  calls of \<^verbatim>\<open>chrome.runtime.connect\<close> and \<^verbatim>\<open>port.postMessage\<close>.
\<close>

record 'r LanguageServerClient =
  extensionId :: string
  sessionId :: string
  port :: nat
  requestId :: nat
  promiseMap :: "jsnumber \<rightharpoonup> nat"
  apiKeyPoller :: ApiKeyPoller
  connects :: "(string \<times> string) list"
  posted :: "(nat \<times> LanguageServerWorkerRequest) list"
  promises :: "'r option option list"

definition EXTENSION_NAME :: string where
  "EXTENSION_NAME = ''chrome''"

definition EXTENSION_VERSION :: string where
  "EXTENSION_VERSION = ''1.2.26''"

text \<open>\<^verbatim>\<open>createPort\<close> followed by the assignment of its result to \<^verbatim>\<open>this.port\<close>.\<close>

definition createPort :: "'r LanguageServerClient \<Rightarrow> 'r LanguageServerClient" where
  "createPort c =
     c\<lparr>connects := connects c @
          [(extensionId c, LanguageServerClient.sessionId c)],
       LanguageServerClient.port := length (connects c)\<rparr>"

text \<open>The constructor, given the identifier that \<^verbatim>\<open>uuidv4\<close> returns.\<close>

definition new_LanguageServerClient :: "string \<Rightarrow> string \<Rightarrow> 'r LanguageServerClient" where
  "new_LanguageServerClient ext uuid =
     createPort
       \<lparr>extensionId = ext, sessionId = uuid, port = 0, requestId = 0, promiseMap = Map.empty,
        apiKeyPoller = new_ApiKeyPoller, connects = [], posted = [], promises = []\<rparr>"

text \<open>The \<^verbatim>\<open>onDisconnect\<close> listener that \<^verbatim>\<open>createPort\<close> registers on a port.\<close>

definition client_onDisconnect :: "'r LanguageServerClient \<Rightarrow> 'r LanguageServerClient" where
  "client_onDisconnect c = createPort c"

text \<open>Calling the resolver of promise \<open>p\<close>: a promise is resolved once.\<close>

definition resolve :: "'r option option list \<Rightarrow> nat \<Rightarrow> 'r option \<Rightarrow> 'r option option list" where
  "resolve ps p res = (if p < length ps \<and> ps ! p = None then ps[p := Some res] else ps)"

text \<open>
  The value \<^verbatim>\<open>res\<close> of the client's \<^verbatim>\<open>onMessage\<close> listener: \<^verbatim>\<open>undefined\<close> for a frame without a
  response, the decoded response otherwise; \<open>None\<close> when \<^verbatim>\<open>fromJsonString\<close> throws.
\<close>

definition decode_response :: "'r json \<Rightarrow> string option \<Rightarrow> 'r option option" where
  "decode_response js response =
     (case response of
        None \<Rightarrow> Some None
      | Some text \<Rightarrow> map_option Some (responseFromJson js text))"

text \<open>
  The \<^verbatim>\<open>onMessage\<close> listener that \<^verbatim>\<open>createPort\<close> registers on a port. The listener does
  not look at the port it is called for. When the response does not decode the listener
  ends before it calls the resolver and before it deletes the entry.
\<close>

definition client_onMessage ::
    "'r json \<Rightarrow> 'r LanguageServerClient \<Rightarrow> LanguageServerWorkerResponse \<Rightarrow> 'r LanguageServerClient" where
  "client_onMessage js c msg =
     (case msg of
        GetCompletionsResponseMessage rid response \<Rightarrow>
          (case decode_response js response of
             None \<Rightarrow> c
           | Some res \<Rightarrow>
               (let ps = (case promiseMap c rid of
                            None \<Rightarrow> promises c
                          | Some p \<Rightarrow> resolve (promises c) p res)
                in c\<lparr>promises := ps, promiseMap := (promiseMap c)(rid := None)\<rparr>))
      | OtherResponse k \<Rightarrow> c)"

definition getMetadata ::
    "Browser \<Rightarrow> 'r LanguageServerClient \<Rightarrow> IdeInfo \<Rightarrow> string \<Rightarrow> Metadata \<times> 'r LanguageServerClient" where
  "getMetadata browser c ideInfo key =
     (let n = js_incr (LanguageServerClient.requestId c)
      in (\<lparr>Metadata.ideName = IdeInfo.ideName ideInfo,
           Metadata.ideVersion = IdeInfo.ideVersion ideInfo,
           extensionName = EXTENSION_NAME,
           extensionVersion = EXTENSION_VERSION,
           Metadata.apiKey = key,
           locale_ = language browser,
           Metadata.sessionId = LanguageServerClient.sessionId c,
           Metadata.requestId = n,
           Metadata.userAgent = Browser.userAgent browser,
           url = href browser\<rparr>,
          c\<lparr>LanguageServerClient.requestId := n\<rparr>))"

text \<open>The client's \<^verbatim>\<open>getCompletions\<close>; the result is the promise returned.\<close>

definition client_getCompletions ::
    "'r json \<Rightarrow> 'r LanguageServerClient \<Rightarrow> GetCompletionsRequest \<Rightarrow> nat \<times> 'r LanguageServerClient" where
  "client_getCompletions js c request =
     (let rid = Number (map_option Metadata.requestId (GetCompletionsRequest.metadata request));
          prom = length (promises c)
      in (prom,
          c\<lparr>promises := promises c @ [None],
            promiseMap := (promiseMap c)(rid \<mapsto> prom),
            posted := posted c @
              [(LanguageServerClient.port c,
                GetCompletionsRequestMessage rid (requestToJson js request))]\<rparr>))"

definition client_acceptedLastCompletion ::
    "'r json \<Rightarrow> Browser \<Rightarrow> 'r LanguageServerClient \<Rightarrow> IdeInfo \<Rightarrow> string \<Rightarrow> string
       \<Rightarrow> 'r LanguageServerClient" where
  "client_acceptedLastCompletion js browser c ideInfo key cid =
     (let (m, c1) = getMetadata browser c ideInfo key;
          request = \<lparr>AcceptCompletionRequest.metadata = Some m, completionId = cid\<rparr>
      in c1\<lparr>posted := posted c1 @
           [(LanguageServerClient.port c1,
             AcceptCompletionRequestMessage (acceptToJson js request))]\<rparr>)"

text \<open>
  What happens to a client: calls of its three methods, and the events of its ports and of
  the poller's timer.
\<close>

datatype client_event =
    GetMetadata IdeInfo string
  | GetCompletions GetCompletionsRequest
  | AcceptedLastCompletion IdeInfo string string
  | PortDisconnected nat
  | PortMessage nat LanguageServerWorkerResponse
  | Tick "User option"

fun client_step ::
    "'r json \<Rightarrow> Browser \<Rightarrow> 'r LanguageServerClient \<Rightarrow> client_event \<Rightarrow> 'r LanguageServerClient" where
  "client_step js browser c (GetMetadata ideInfo key) = snd (getMetadata browser c ideInfo key)"
| "client_step js browser c (GetCompletions request) = snd (client_getCompletions js c request)"
| "client_step js browser c (AcceptedLastCompletion ideInfo key cid) =
     client_acceptedLastCompletion js browser c ideInfo key cid"
| "client_step js browser c (PortDisconnected p) = client_onDisconnect c"
| "client_step js browser c (PortMessage p msg) = client_onMessage js c msg"
| "client_step js browser c (Tick user) =
     c\<lparr>apiKeyPoller := ApiKeyPoller_tick (apiKeyPoller c) user\<rparr>"

definition client_run ::
    "'r json \<Rightarrow> Browser \<Rightarrow> 'r LanguageServerClient \<Rightarrow> client_event list \<Rightarrow> 'r LanguageServerClient" where
  "client_run js browser c es = foldl (client_step js browser) c es"

text \<open>
  A run in which the request of every \<^verbatim>\<open>getCompletions\<close> carries metadata with a request
  id not above the counter, as every id that \<^verbatim>\<open>getMetadata\<close> has handed out is.
\<close>

fun ids_from_counter ::
    "'r json \<Rightarrow> Browser \<Rightarrow> 'r LanguageServerClient \<Rightarrow> client_event list \<Rightarrow> bool" where
  "ids_from_counter js browser c [] = True"
| "ids_from_counter js browser c (e # es) =
     ((case e of
         GetCompletions request \<Rightarrow>
           (case GetCompletionsRequest.metadata request of
              None \<Rightarrow> False
            | Some m \<Rightarrow> Metadata.requestId m \<le> LanguageServerClient.requestId c)
       | _ \<Rightarrow> True)
      \<and> ids_from_counter js browser (client_step js browser c e) es)"

subsection \<open>Parameters of the examples\<close>

text \<open>
  A response is a string and a JSON text is the message's opaque part; a request read back
  from JSON has no metadata. \<open>json0\<close> decodes every text, \<open>json1\<close> only a text that begins
  with a brace.
\<close>

definition json0 :: "string json" where
  "json0 =
     \<lparr>requestToJson = document,
      requestFromJson = (\<lambda>s. Some \<lparr>GetCompletionsRequest.metadata = None, document = s\<rparr>),
      acceptToJson = completionId,
      acceptFromJson = (\<lambda>s. Some \<lparr>AcceptCompletionRequest.metadata = None, completionId = s\<rparr>),
      responseToJson = (\<lambda>r. r),
      responseFromJson = (\<lambda>s. Some s)\<rparr>"

definition braced :: "string \<Rightarrow> bool" where
  "braced s = (case s of [] \<Rightarrow> False | ch # rest \<Rightarrow> ch = CHR ''{'')"

definition json1 :: "string json" where
  "json1 =
     \<lparr>requestToJson = document,
      requestFromJson = (\<lambda>s. if braced s
         then Some \<lparr>GetCompletionsRequest.metadata = None, document = s\<rparr> else None),
      acceptToJson = completionId,
      acceptFromJson = (\<lambda>s. if braced s
         then Some \<lparr>AcceptCompletionRequest.metadata = None, completionId = s\<rparr> else None),
      responseToJson = (\<lambda>r. r),
      responseFromJson = (\<lambda>s. if braced s then Some s else None)\<rparr>"

definition browser0 :: Browser where
  "browser0 = \<lparr>language = ''en'', userAgent = ''ua'', href = ''https://example.org/''\<rparr>"

definition ide0 :: IdeInfo where
  "ide0 = \<lparr>IdeInfo.ideName = ''jupyter'', IdeInfo.ideVersion = ''1''\<rparr>"

definition port0 :: Port where
  "port0 = \<lparr>portId = 0, name = ''s''\<rparr>"

definition port1 :: Port where
  "port1 = \<lparr>portId = 1, name = ''s''\<rparr>"

subsection \<open>Invariants of the background state\<close>

text \<open>
  Every suspended listener has a signal of its own, and the signal of a listener that is not
  the one its endpoint holds has fired.
\<close>

definition supersession_inv :: "background \<Rightarrow> bool" where
  "supersession_inv st \<longleftrightarrow>
     distinct (map signal (inflight st)) \<and>
     (\<forall>c \<in> set (inflight st).
        client c < length (endpoints st) \<and> signal c < length (signals st) \<and>
        (abortController (endpoints st ! client c) \<noteq> Some (signal c) \<longrightarrow> signals st ! signal c))"

text \<open>
  The registry has an entry for exactly the names of the channels \<open>ps\<close>, which differ, and
  its addresses lie in the store.
\<close>

definition registry_inv :: "background \<Rightarrow> Port list \<Rightarrow> bool" where
  "registry_inv st ps \<longleftrightarrow>
     dom (clientMap st) = set (map name ps) \<and> distinct (map name ps) \<and>
     (\<forall>n a. clientMap st n = Some a \<longrightarrow> a < length (endpoints st))"

text \<open>An endpoint in the registry lies in the store and has the name it is registered under as
  its session identity.\<close>

definition endpoint_names_inv :: "background \<Rightarrow> bool" where
  "endpoint_names_inv st \<longleftrightarrow>
     (\<forall>n a. clientMap st n = Some a \<longrightarrow>
        a < length (endpoints st) \<and>
        LanguageServerServiceWorkerClient.sessionId (endpoints st ! a) = n)"


text \<open>
  The client's counter is a number a double represents exactly, and every key of
  \<^verbatim>\<open>promiseMap\<close> is a request id not above the counter.
\<close>

definition client_inv :: "'r LanguageServerClient \<Rightarrow> bool" where
  "client_inv c \<longleftrightarrow>
     LanguageServerClient.requestId c \<le> 2 ^ 53 \<and>
     (\<forall>k. promiseMap c k \<noteq> None \<longrightarrow>
        (\<exists>n \<le> LanguageServerClient.requestId c. k = Finite n))"

text \<open>The events that add the state \<open>s\<close> to \<^verbatim>\<open>authStates\<close>.\<close>

fun registers :: "string \<Rightarrow> 'r event \<Rightarrow> bool" where
  "registers s (RuntimeMessage m) = (runtime_message.type m = Some ''state'' \<and> payload_state m = s)"
| "registers s (Installed user uuid) = (getApiKey user = None \<and> uuid = s)"
| "registers s e = False"

subsection \<open>Example runs\<close>

text \<open>A page registers the state \<open>abc\<close>; the portal confirms it with a token.\<close>

definition register0 :: runtime_message where
  "register0 = \<lparr>runtime_message.type = Some ''state'', payload_state = ''abc'', token = []\<rparr>"

definition confirmation0 :: external_message where
  "confirmation0 =
     \<lparr>external_message.type = None, message = None, token = Some ''tok'', state = Some ''abc''\<rparr>"

text \<open>
  Two completion requests on one channel; and a completion request, the loss of the
  channel, a new channel of the same session and a second request.
\<close>

definition supersede_run :: "string event list" where
  "supersede_run =
     [ConnectExternal port0,
      Message port0 (GetCompletionsRequestMessage (Finite 1) ''a''),
      Message port0 (GetCompletionsRequestMessage (Finite 2) ''b'')]"

definition reconnect_run :: "string event list" where
  "reconnect_run =
     [ConnectExternal port0,
      Message port0 (GetCompletionsRequestMessage (Finite 1) ''a''),
      Disconnect port0,
      ConnectExternal port1,
      Message port1 (GetCompletionsRequestMessage (Finite 2) ''b'')]"

text \<open>One completion request on an open channel.\<close>

definition canceled_run :: "string event list" where
  "canceled_run =
     [ConnectExternal port0,
      Message port0 (GetCompletionsRequestMessage (Finite 1) ''a'')]"

text \<open>One completion request, with id 7, on an open channel.\<close>

definition answered_run :: "string event list" where
  "answered_run =
     [ConnectExternal port0,
      Message port0 (GetCompletionsRequestMessage (Finite 7) ''q'')]"

text \<open>A client that asks for completions once, with fresh metadata, and loses its channel.\<close>

definition client0 :: "string LanguageServerClient" where
  "client0 = new_LanguageServerClient ''extension'' ''s''"

definition request1 :: GetCompletionsRequest where
  "request1 =
     \<lparr>GetCompletionsRequest.metadata = Some (fst (getMetadata browser0 client0 ide0 ''key'')),
      document = ''text''\<rparr>"


text \<open>
  A JSON conversion under which a text decodes to a message whose metadata carries the
  text as its credential.
\<close>

definition json2 :: "string json" where
  "json2 =
     \<lparr>requestToJson = document,
      requestFromJson = (\<lambda>s. Some
         \<lparr>GetCompletionsRequest.metadata = Some (fst (getMetadata browser0 client0 ide0 s)),
          document = s\<rparr>),
      acceptToJson = completionId,
      acceptFromJson = (\<lambda>s. Some
         \<lparr>AcceptCompletionRequest.metadata = Some (fst (getMetadata browser0 client0 ide0 s)),
          completionId = s\<rparr>),
      responseToJson = (\<lambda>r. r),
      responseFromJson = (\<lambda>s. Some s)\<rparr>"

section \<open>Properties\<close>

subsection \<open>Supersession is an invariant\<close>

lemma length_abort [simp]: "length (abort ss ctl) = length ss"
  by (simp add: abort_def split: option.splits)

lemma abort_keeps: "i < length ss \<Longrightarrow> ss ! i \<Longrightarrow> abort ss ctl ! i"
proof (cases ctl)
  case None
  assume "ss ! i"
  with None show ?thesis by (simp add: abort_def)
next
  case (Some t)
  assume "i < length ss" and "ss ! i"
  with Some show ?thesis
    by (cases "t < length ss") (simp_all add: abort_def nth_list_update)
qed

lemma abort_fires: "t < length ss \<Longrightarrow> abort ss (Some t) ! t"
  by (simp add: abort_def)

lemma supersession_inv_init: "supersession_inv init_background"
  by (simp add: supersession_inv_def init_background_def)

lemma supersession_inv_call:
  assumes inv: "supersession_inv st" and a: "a < length (endpoints st)"
    and call: "worker_getCompletions_call st a request = (s, st1)"
  shows "supersession_inv (st1\<lparr>inflight := inflight st1 @ [\<lparr>suspended.port = p, requestId = rid, client = a, signal = s\<rparr>]\<rparr>)"
proof -
  let ?ctl = "abortController (endpoints st ! a)"
  let ?n = "length (signals st)"
  from call have s: "s = ?n"
    and sig1: "signals st1 = abort (signals st) ?ctl @ [False]"
    and end1: "endpoints st1 = (endpoints st)[a := (endpoints st ! a)\<lparr>abortController := Some ?n\<rparr>]"
    and inf1: "inflight st1 = inflight st"
    by (auto simp: worker_getCompletions_call_def Let_def)
  have old: "client c < length (endpoints st1) \<and> signal c < length (signals st1) \<and> signal c \<noteq> s \<and>
        (abortController (endpoints st1 ! client c) \<noteq> Some (signal c) \<longrightarrow> signals st1 ! signal c)"
    if c: "c \<in> set (inflight st)" for c
  proof -
    from inv c have cl: "client c < length (endpoints st)" and sg: "signal c < ?n"
      and fired: "abortController (endpoints st ! client c) \<noteq> Some (signal c) \<Longrightarrow> signals st ! signal c"
      by (auto simp: supersession_inv_def)
    have "signals st1 ! signal c" if ne: "abortController (endpoints st1 ! client c) \<noteq> Some (signal c)"
    proof (cases "client c = a")
      case True
      show ?thesis
      proof (cases "?ctl = Some (signal c)")
        case True
        with sg show ?thesis by (simp add: sig1 nth_append abort_fires)
      next
        case False
        with fired \<open>client c = a\<close> have "signals st ! signal c" by simp
        with sg show ?thesis by (simp add: sig1 nth_append abort_keeps)
      qed
    next
      case False
      with ne cl have "abortController (endpoints st ! client c) \<noteq> Some (signal c)"
        by (simp add: end1)
      then have "signals st ! signal c" by (rule fired)
      with sg show ?thesis by (simp add: sig1 nth_append abort_keeps)
    qed
    with cl sg show ?thesis by (simp add: end1 sig1 s)
  qed
  have new: "abortController (endpoints st1 ! a) = Some s"
    using a by (simp add: end1 s)
  have dist: "distinct (map signal (inflight st))"
    using inv by (simp add: supersession_inv_def)
  have notin: "s \<notin> signal ` set (inflight st)"
    using old by auto
  show ?thesis
    using old new dist notin a
    by (auto simp: supersession_inv_def inf1 end1 sig1 s)
qed

lemma settle_keeps [simp]:
  "authStates (snd (worker_getCompletions_settle st s outcome sent)) = authStates st"
  "clientMap (snd (worker_getCompletions_settle st s outcome sent)) = clientMap st"
  "endpoints (snd (worker_getCompletions_settle st s outcome sent)) = endpoints st"
  "signals (snd (worker_getCompletions_settle st s outcome sent)) = signals st"
  "inflight (snd (worker_getCompletions_settle st s outcome sent)) = inflight st"
  "upstream (snd (worker_getCompletions_settle st s outcome sent)) = upstream st"
  "outbox (snd (worker_getCompletions_settle st s outcome sent)) = outbox st"
  "logins (snd (worker_getCompletions_settle st s outcome sent)) = logins st"
  by (simp_all add: worker_getCompletions_settle_def report_def split: settled.splits thrown.splits)

lemma onSettled_keeps [simp]:
  "authStates (onSettled js st s outcome sent) = authStates st"
  "clientMap (onSettled js st s outcome sent) = clientMap st"
  "endpoints (onSettled js st s outcome sent) = endpoints st"
  "signals (onSettled js st s outcome sent) = signals st"
  "upstream (onSettled js st s outcome sent) = upstream st"
  "logins (onSettled js st s outcome sent) = logins st"
  by (simp_all add: onSettled_def postMessage_def Let_def split_beta
      split: option.splits returned.splits)

lemma inflight_onSettled:
  "inflight (onSettled js st s outcome sent) =
     (case find_suspended (inflight st) s of
        None \<Rightarrow> inflight st
      | Some c \<Rightarrow> filter (\<lambda>c. signal c \<noteq> s) (inflight st))"
  by (simp add: onSettled_def postMessage_def Let_def split_beta
      split: option.splits returned.splits)

lemma supersession_inv_settle:
  "supersession_inv st \<Longrightarrow> supersession_inv (onSettled js st s outcome sent)"
  by (auto simp: supersession_inv_def inflight_onSettled distinct_map_filter split: option.splits)

lemma supersession_inv_step:
  assumes "supersession_inv st" shows "supersession_inv (step js st ev)"
proof (cases ev)
  case (ConnectExternal p)
  with assms show ?thesis
    by (auto simp: supersession_inv_def onConnectExternal_def nth_append)
next
  case (Disconnect p)
  with assms show ?thesis by (simp add: supersession_inv_def onDisconnect_def)
next
  case (Message p msg)
  show ?thesis
  proof (cases msg)
    case (GetCompletionsRequestMessage rid request)
    show ?thesis
    proof (cases "clientMap_get st (name p)")
      case None
      with assms Message GetCompletionsRequestMessage show ?thesis
        by (simp add: onMessage_def postMessage_def supersession_inv_def)
    next
      case (Some a)
      then have a: "a < length (endpoints st)"
        by (auto simp: clientMap_get_def split: option.splits if_splits)
      show ?thesis
      proof (cases "requestFromJson js request")
        case None
        with assms Message GetCompletionsRequestMessage Some show ?thesis
          by (simp add: onMessage_def)
      next
        case (Some decoded)
        obtain s st1 where call: "worker_getCompletions_call st a decoded = (s, st1)"
          by (cases "worker_getCompletions_call st a decoded")
        from supersession_inv_call [OF assms a call]
        show ?thesis
          using Message GetCompletionsRequestMessage \<open>clientMap_get st (name p) = Some a\<close> Some call
          by (simp add: onMessage_def)
      qed
    qed
  next
    case (AcceptCompletionRequestMessage request)
    with assms Message show ?thesis
      by (auto simp: onMessage_def worker_acceptedLastCompletion_call_def supersession_inv_def Let_def
          split: option.splits)
  next
    case (OtherRequest k)
    with assms Message show ?thesis by (simp add: onMessage_def supersession_inv_def)
  qed
next
  case (Settled s outcome sent)
  with assms show ?thesis by (simp add: supersession_inv_settle)
next
  case (AcceptSettled outcome)
  with assms show ?thesis
    by (auto simp: worker_acceptedLastCompletion_settle_def supersession_inv_def split: option.splits)
next
  case (MessageExternal m)
  with assms show ?thesis
    by (auto simp: onMessageExternal_def login_def supersession_inv_def split: option.splits)
next
  case (RuntimeMessage m)
  with assms show ?thesis
    by (auto simp: onRuntimeMessage_def login_def supersession_inv_def)
next
  case (Installed user uuid)
  with assms show ?thesis
    by (auto simp: onInstalled_def supersession_inv_def)
qed

lemma supersession_inv_run:
  "supersession_inv st \<Longrightarrow> supersession_inv (run js st es)"
  unfolding run_def
  by (induction es arbitrary: st) (simp_all add: supersession_inv_step)

lemma length_filter_same_key:
  "distinct (map f xs) \<Longrightarrow> (\<forall>x \<in> set xs. P x \<longrightarrow> f x = v) \<Longrightarrow> length (filter P xs) \<le> 1"
proof (induction xs)
  case Nil
  then show ?case by simp
next
  case (Cons x xs)
  show ?case
  proof (cases "P x")
    case True
    with Cons.prems have "f x = v" and "v \<notin> f ` set xs" by auto
    have "\<not> P y" if "y \<in> set xs" for y
    proof
      assume "P y"
      with that Cons.prems have "f y = v" by simp
      with that \<open>v \<notin> f ` set xs\<close> show False by auto
    qed
    then have "filter P xs = []" by (simp add: filter_empty_conv)
    then show ?thesis by simp
  next
    case False
    with Cons show ?thesis by simp
  qed
qed

lemma supersession_inv_unfired:
  assumes "supersession_inv st"
  shows "length (unfired_of_endpoint st a) \<le> 1 \<and>
     (\<forall>c \<in> set (unfired_of_endpoint st a). abortController (endpoints st ! a) = Some (signal c))"
proof -
  let ?P = "\<lambda>c. client c = a \<and> \<not> signals st ! signal c"
  have key: "\<forall>c \<in> set (inflight st). ?P c \<longrightarrow> Some (signal c) = abortController (endpoints st ! a)"
    using assms by (auto simp: supersession_inv_def)
  show ?thesis
  proof (cases "abortController (endpoints st ! a)")
    case None
    with key have "filter ?P (inflight st) = []" by (auto simp: filter_empty_conv)
    then show ?thesis by (simp add: unfired_of_endpoint_def)
  next
    case (Some t)
    with key have "\<forall>c \<in> set (inflight st). ?P c \<longrightarrow> signal c = t" by auto
    moreover have "distinct (map signal (inflight st))"
      using assms by (simp add: supersession_inv_def)
    ultimately have "length (filter ?P (inflight st)) \<le> 1"
      by (rule length_filter_same_key [rotated])
    with key Some show ?thesis by (auto simp: unfired_of_endpoint_def)
  qed
qed

subsection \<open>The registry follows the channels\<close>

lemma clientMap_onMessage [simp]: "clientMap (onMessage js st p msg) = clientMap st"
  by (simp add: onMessage_def postMessage_def worker_getCompletions_call_def
      worker_acceptedLastCompletion_call_def Let_def
      split: LanguageServerWorkerRequest.splits option.splits)

lemma length_endpoints_onMessage [simp]:
  "length (endpoints (onMessage js st p msg)) = length (endpoints st)"
  by (simp add: onMessage_def postMessage_def worker_getCompletions_call_def
      worker_acceptedLastCompletion_call_def Let_def
      split: LanguageServerWorkerRequest.splits option.splits)

lemma registry_acceptSettled [simp]:
  "clientMap (worker_acceptedLastCompletion_settle st outcome) = clientMap st"
  "endpoints (worker_acceptedLastCompletion_settle st outcome) = endpoints st"
  by (simp_all add: worker_acceptedLastCompletion_settle_def split: option.splits)

lemma registry_onMessageExternal [simp]:
  "clientMap (onMessageExternal st m) = clientMap st"
  "endpoints (onMessageExternal st m) = endpoints st"
  by (simp_all add: onMessageExternal_def login_def split: option.splits)

lemma registry_onRuntimeMessage [simp]:
  "clientMap (onRuntimeMessage st m) = clientMap st"
  "endpoints (onRuntimeMessage st m) = endpoints st"
  by (simp_all add: onRuntimeMessage_def login_def)

lemma registry_onInstalled [simp]:
  "clientMap (onInstalled st user uuid) = clientMap st"
  "endpoints (onInstalled st user uuid) = endpoints st"
  by (simp_all add: onInstalled_def)

lemma names_removeAll:
  assumes "distinct (map name ps)" and "p \<in> set ps"
  shows "set (map name (removeAll p ps)) = set (map name ps) - {name p}"
    and "distinct (map name (removeAll p ps))"
proof -
  from assms(1) have inj: "inj_on name (set ps)" by (simp add: distinct_map)
  have "name ` (set ps - {p}) = name ` set ps - {name p}"
    using inj assms(2) by (auto simp: inj_on_def)
  then show "set (map name (removeAll p ps)) = set (map name ps) - {name p}" by simp
  from assms(1) show "distinct (map name (removeAll p ps))"
    by (simp add: distinct_map distinct_removeAll inj_on_def)
qed

lemma run_Cons: "run js st (e # es) = run js (step js st e) es"
  by (simp add: run_def)

lemma registry_inv_run:
  "registry_inv st ps \<Longrightarrow> one_channel_per_session ps es \<Longrightarrow>
     registry_inv (run js st es) (channels ps es)"
proof (induction es arbitrary: st ps)
  case Nil
  then show ?case by (simp add: run_def)
next
  case (Cons e es)
  show ?case
  proof (cases e)
    case (ConnectExternal p)
    with Cons.prems have fresh: "name p \<notin> set (map name ps)"
      and rest: "one_channel_per_session (ps @ [p]) es" by simp_all
    from Cons.prems(1) fresh have "registry_inv (onConnectExternal st p) (ps @ [p])"
      by (auto simp: registry_inv_def onConnectExternal_def less_Suc_eq dest: spec)
    from Cons.IH [OF this rest] show ?thesis by (simp add: run_Cons ConnectExternal)
  next
    case (Disconnect p)
    with Cons.prems have mem: "p \<in> set ps"
      and rest: "one_channel_per_session (removeAll p ps) es" by simp_all
    from Cons.prems(1) have d: "distinct (map name ps)" by (simp add: registry_inv_def)
    from Cons.prems(1) names_removeAll [OF d mem]
    have "registry_inv (onDisconnect st p) (removeAll p ps)"
      by (auto simp: registry_inv_def onDisconnect_def split: if_splits)
    from Cons.IH [OF this rest] show ?thesis by (simp add: run_Cons Disconnect)
  next
    case (Message p msg)
    with Cons.prems have rest: "one_channel_per_session ps es" by simp
    from Cons.prems(1) have "registry_inv (onMessage js st p msg) ps"
      by (simp add: registry_inv_def)
    from Cons.IH [OF this rest] show ?thesis by (simp add: run_Cons Message)
  next
    case (Settled s outcome sent)
    with Cons.prems have rest: "one_channel_per_session ps es" by simp
    from Cons.prems(1) have "registry_inv (onSettled js st s outcome sent) ps"
      by (simp add: registry_inv_def)
    from Cons.IH [OF this rest] show ?thesis by (simp add: run_Cons Settled)
  next
    case (AcceptSettled outcome)
    with Cons.prems have rest: "one_channel_per_session ps es" by simp
    from Cons.prems(1) have "registry_inv (worker_acceptedLastCompletion_settle st outcome) ps"
      by (simp add: registry_inv_def)
    from Cons.IH [OF this rest] show ?thesis by (simp add: run_Cons AcceptSettled)
  next
    case (MessageExternal m)
    with Cons.prems have rest: "one_channel_per_session ps es" by simp
    from Cons.prems(1) have "registry_inv (onMessageExternal st m) ps"
      by (simp add: registry_inv_def)
    from Cons.IH [OF this rest] show ?thesis by (simp add: run_Cons MessageExternal)
  next
    case (RuntimeMessage m)
    with Cons.prems have rest: "one_channel_per_session ps es" by simp
    from Cons.prems(1) have "registry_inv (onRuntimeMessage st m) ps"
      by (simp add: registry_inv_def)
    from Cons.IH [OF this rest] show ?thesis by (simp add: run_Cons RuntimeMessage)
  next
    case (Installed user uuid)
    with Cons.prems have rest: "one_channel_per_session ps es" by simp
    from Cons.prems(1) have "registry_inv (onInstalled st user uuid) ps"
      by (simp add: registry_inv_def)
    from Cons.IH [OF this rest] show ?thesis by (simp add: run_Cons Installed)
  qed
qed

lemma registry_inv_init: "registry_inv init_background []"
  by (simp add: registry_inv_def init_background_def)

lemma abort_nth: "t < length ss \<Longrightarrow> abort ss ctl ! t = (ss ! t \<or> ctl = Some t)"
proof (cases ctl)
  case None
  then show ?thesis by (simp add: abort_def)
next
  case (Some u)
  assume "t < length ss"
  with Some show ?thesis
    by (cases "u < length ss") (auto simp: abort_def nth_list_update)
qed

subsection \<open>Suspended listeners\<close>

lemma find_filter_keep:
  "(\<And>x. P x \<Longrightarrow> Q x) \<Longrightarrow> find P (filter Q xs) = find P xs"
  by (induction xs) auto

lemma find_filter_drop: "find P (filter (\<lambda>x. \<not> P x) xs) = None"
  by (induction xs) auto

lemma find_append_Some: "find P xs = Some x \<Longrightarrow> find P (xs @ ys) = Some x"
  by (induction xs) (auto split: if_splits)

lemma inflight_step_other:
  assumes "find_suspended (inflight st) s = Some c"
    and "\<forall>outcome sent. ev \<noteq> Settled s outcome sent"
  shows "find_suspended (inflight (step js st ev)) s = Some c"
proof (cases ev)
  case (Message p msg)
  with assms(1) show ?thesis
    by (auto simp: find_suspended_def onMessage_def postMessage_def worker_getCompletions_call_def
        worker_acceptedLastCompletion_call_def Let_def find_append_Some
        split: LanguageServerWorkerRequest.splits option.splits)
next
  case (Settled s' outcome sent)
  with assms(2) have ne: "s' \<noteq> s" by auto
  then have "find (\<lambda>c. signal c = s) (filter (\<lambda>c. signal c \<noteq> s') (inflight st)) =
      find (\<lambda>c. signal c = s) (inflight st)"
    by (intro find_filter_keep) auto
  with assms(1) Settled show ?thesis
    by (auto simp: find_suspended_def inflight_onSettled split: option.splits)
qed (use assms(1) in \<open>auto simp: onConnectExternal_def onDisconnect_def
       worker_acceptedLastCompletion_settle_def onMessageExternal_def onRuntimeMessage_def
       onInstalled_def login_def split: option.splits\<close>)


subsection \<open>The list of outstanding states\<close>

lemma indexOf_None: "(indexOf xs y = None) = (y \<notin> set xs)"
  by (induction xs) auto

lemma splice1_indexOf: "indexOf xs y = Some i \<Longrightarrow> splice1 xs i = remove1 y xs"
proof (induction xs arbitrary: i)
  case Nil
  then show ?case by simp
next
  case (Cons x xs)
  show ?case
  proof (cases "x = y")
    case True
    with Cons.prems show ?thesis by (simp add: splice1_def)
  next
    case False
    with Cons.prems obtain j where j: "indexOf xs y = Some j" and i: "i = Suc j" by auto
    from Cons.IH [OF j] have "take j xs @ drop (Suc j) xs = remove1 y xs"
      by (simp add: splice1_def)
    with False i show ?thesis by (simp add: splice1_def)
  qed
qed

lemma count_list_remove1:
  "y \<in> set xs \<Longrightarrow> count_list (remove1 y xs) y = count_list xs y - 1"
  by (induction xs) auto

lemma authStates_unregistered_step:
  "s \<notin> set (authStates st) \<Longrightarrow> \<not> registers s e \<Longrightarrow> s \<notin> set (authStates (step js st e))"
proof (cases e)
  case (Message p msg)
  assume "s \<notin> set (authStates st)"
  with Message show ?thesis
    by (simp add: onMessage_def postMessage_def worker_getCompletions_call_def
        worker_acceptedLastCompletion_call_def Let_def split_beta
        split: LanguageServerWorkerRequest.splits option.splits)
next
  case (Settled sg outcome sent)
  assume "s \<notin> set (authStates st)"
  with Settled show ?thesis by simp
next
  case (MessageExternal m)
  assume a: "s \<notin> set (authStates st)"
  have "set (authStates (onMessageExternal st m)) \<subseteq> set (authStates st)"
    by (auto simp: onMessageExternal_def login_def splice1_indexOf
        split: option.splits dest: set_remove1_subset [THEN subsetD])
  with a MessageExternal show ?thesis by auto
qed (auto simp: onConnectExternal_def onDisconnect_def worker_acceptedLastCompletion_settle_def
       onRuntimeMessage_def onInstalled_def login_def split: option.splits)

lemma authStates_unregistered_run:
  "s \<notin> set (authStates st) \<Longrightarrow> list_all (\<lambda>e. \<not> registers s e) es \<Longrightarrow>
     s \<notin> set (authStates (run js st es))"
  by (induction es arbitrary: st) (simp_all add: run_def authStates_unregistered_step)

lemma count_one_removed: "count_list xs y = 1 \<Longrightarrow> y \<notin> set (remove1 y xs)"
proof -
  assume c: "count_list xs y = 1"
  then have "y \<in> set xs" by (metis count_list_0_iff zero_neq_one)
  then have "count_list (remove1 y xs) y = count_list xs y - 1" by (rule count_list_remove1)
  with c have "count_list (remove1 y xs) y = 0" by simp
  then show ?thesis unfolding count_list_0_iff .
qed

subsection \<open>The request counter\<close>

lemma floorlog_2_53: "floorlog 2 (2 ^ 53 :: nat) = 54"
  using floorlog_power [of 1 2 53] by (simp add: compute_floorlog)

lemma floorlog_2_53_1: "floorlog 2 (2 ^ 53 + 1 :: nat) = 54"
proof -
  have "floorlog 2 (2 ^ 53 + 1 :: nat) = floorlog 2 (2 ^ 53)"
    by (rule floorlog_eq_if) simp_all
  then show ?thesis by (simp only: floorlog_2_53)
qed

lemma round_double_exact: "n \<le> 2 ^ 53 \<Longrightarrow> round_double n = n"
proof (cases "n < 2 ^ 53")
  case True
  then show ?thesis by (simp add: round_double_def)
next
  case False
  assume "n \<le> 2 ^ 53"
  with False have n: "n = 2 ^ 53" by simp
  show ?thesis unfolding n round_double_def floorlog_2_53 by (simp add: Let_def)
qed

lemma js_incr_below: "n < 2 ^ 53 \<Longrightarrow> js_incr n = n + 1"
  by (simp add: js_incr_def round_double_exact)

lemma js_incr_top: "js_incr (2 ^ 53) = 2 ^ 53"
  unfolding js_incr_def round_double_def floorlog_2_53_1 by (simp add: Let_def)

lemma js_incr_bounds: "n \<le> 2 ^ 53 \<Longrightarrow> n \<le> js_incr n \<and> js_incr n \<le> 2 ^ 53"
proof (cases "n < 2 ^ 53")
  case True
  then show ?thesis by (simp add: js_incr_below)
next
  case False
  assume "n \<le> 2 ^ 53"
  with False have "n = 2 ^ 53" by simp
  then show ?thesis by (simp only: js_incr_top order_refl simp_thms)
qed

lemma round_double_small [simp]: "round_double 1 = 1" "round_double (Suc 0) = Suc 0"
  by (simp_all add: round_double_def)

lemma client_inv_new: "client_inv (new_LanguageServerClient ext uuid)"
  by (simp add: client_inv_def new_LanguageServerClient_def createPort_def)

lemma client_inv_getMetadata:
  "client_inv c \<Longrightarrow> client_inv (snd (getMetadata browser c ideInfo key))"
  using js_incr_bounds [of "LanguageServerClient.requestId c"]
  by (fastforce simp: client_inv_def getMetadata_def Let_def)

lemma client_inv_step:
  assumes "client_inv c" and "ids_from_counter js browser c [e]"
  shows "client_inv (client_step js browser c e)"
proof (cases e)
  case (GetMetadata ideInfo key)
  with assms(1) show ?thesis by (simp add: client_inv_getMetadata)
next
  case (GetCompletions request)
  with assms(2) obtain m where m: "GetCompletionsRequest.metadata request = Some m"
    and le: "Metadata.requestId m \<le> LanguageServerClient.requestId c"
    by (auto split: option.splits)
  from assms(1) le have "round_double (Metadata.requestId m) = Metadata.requestId m"
    by (intro round_double_exact) (simp add: client_inv_def)
  with assms(1) m le GetCompletions show ?thesis
    by (auto simp: client_inv_def client_getCompletions_def Let_def Number_def)
next
  case (AcceptedLastCompletion ideInfo key cid)
  from client_inv_getMetadata [OF assms(1), of browser ideInfo key]
  show ?thesis
    by (simp add: AcceptedLastCompletion client_acceptedLastCompletion_def split_beta client_inv_def)
next
  case (PortDisconnected p)
  with assms(1) show ?thesis by (simp add: client_inv_def client_onDisconnect_def createPort_def)
next
  case (PortMessage p msg)
  with assms(1) show ?thesis
    by (auto simp: client_inv_def client_onMessage_def Let_def
        split: LanguageServerWorkerResponse.splits option.splits)
next
  case (Tick user)
  with assms(1) show ?thesis by (simp add: client_inv_def)
qed

lemma client_inv_run:
  "client_inv c \<Longrightarrow> ids_from_counter js browser c es \<Longrightarrow>
     client_inv (client_run js browser c es)"
proof (induction es arbitrary: c)
  case Nil
  then show ?case by (simp add: client_run_def)
next
  case (Cons e es)
  from Cons.prems have "client_inv (client_step js browser c e)"
    by (intro client_inv_step) simp_all
  moreover from Cons.prems have "ids_from_counter js browser (client_step js browser c e) es"
    by simp
  ultimately have "client_inv (client_run js browser (client_step js browser c e) es)"
    by (rule Cons.IH)
  then show ?case by (simp add: client_run_def)
qed

lemma requestId_step_mono:
  assumes "client_inv c"
  shows "LanguageServerClient.requestId c \<le>
           LanguageServerClient.requestId (client_step js browser c e)"
proof -
  from assms have "LanguageServerClient.requestId c \<le> js_incr (LanguageServerClient.requestId c)"
    by (simp add: client_inv_def js_incr_bounds)
  then show ?thesis
    by (cases e)
       (simp_all add: getMetadata_def client_getCompletions_def client_acceptedLastCompletion_def
          client_onDisconnect_def createPort_def client_onMessage_def Let_def split_beta
          split: LanguageServerWorkerResponse.splits option.splits)
qed

subsection \<open>Headers of the upstream calls\<close>

lemma sessionId_call:
  "b < length (endpoints st) \<Longrightarrow>
     LanguageServerServiceWorkerClient.sessionId
       (endpoints (snd (worker_getCompletions_call st a request)) ! b) =
     LanguageServerServiceWorkerClient.sessionId (endpoints st ! b)"
  by (cases "a = b") (simp_all add: worker_getCompletions_call_def Let_def)

lemma endpoint_names_inv_step:
  assumes "endpoint_names_inv st" shows "endpoint_names_inv (step js st ev)"
proof (cases ev)
  case (ConnectExternal p)
  with assms show ?thesis
    by (auto simp: endpoint_names_inv_def onConnectExternal_def nth_append less_Suc_eq
        dest: spec)
next
  case (Disconnect p)
  with assms show ?thesis by (auto simp: endpoint_names_inv_def onDisconnect_def)
next
  case (Message p msg)
  have "LanguageServerServiceWorkerClient.sessionId (endpoints (onMessage js st p msg) ! b) =
      LanguageServerServiceWorkerClient.sessionId (endpoints st ! b)" if "b < length (endpoints st)" for b
    using that
    by (auto simp: onMessage_def postMessage_def sessionId_call split_beta
        worker_acceptedLastCompletion_call_def Let_def
        split: LanguageServerWorkerRequest.splits option.splits)
  with assms Message show ?thesis by (simp add: endpoint_names_inv_def)
next
  case (Settled s outcome sent)
  with assms show ?thesis by (simp add: endpoint_names_inv_def)
next
  case (AcceptSettled outcome)
  with assms show ?thesis by (simp add: endpoint_names_inv_def)
next
  case (MessageExternal m)
  with assms show ?thesis by (simp add: endpoint_names_inv_def)
next
  case (RuntimeMessage m)
  with assms show ?thesis by (simp add: endpoint_names_inv_def)
next
  case (Installed user uuid)
  with assms show ?thesis by (simp add: endpoint_names_inv_def)
qed

lemma endpoint_names_inv_run: "endpoint_names_inv (run js init_background es)"
proof -
  have "endpoint_names_inv st \<Longrightarrow> endpoint_names_inv (run js st es)" for st
    unfolding run_def by (induction es arbitrary: st) (simp_all add: endpoint_names_inv_step)
  moreover have "endpoint_names_inv init_background"
    by (simp add: endpoint_names_inv_def init_background_def)
  ultimately show ?thesis .
qed

lemma registered_endpoint_name:
  "clientMap_get (run js init_background es) n = Some a \<Longrightarrow>
     LanguageServerServiceWorkerClient.sessionId (endpoints (run js init_background es) ! a) = n"
  using endpoint_names_inv_run [of js es]
  by (auto simp: endpoint_names_inv_def clientMap_get_def split: option.splits if_splits)

subsection \<open>Replies and suspended listeners on runs\<close>

lemma rejected_status_send_leaves_getCompletions:
  "\<not> signals st ! s \<Longrightarrow>
     fst (worker_getCompletions_settle st s (RejectedWith (OtherError msg) :: 'r settled) False) = Throws \<and>
     outbox (onSettled js st s (RejectedWith (OtherError msg) :: 'r settled) False) = outbox st"
  by (simp add: worker_getCompletions_settle_def onSettled_def postMessage_def split_beta Let_def
      report_def split: option.splits)

lemma length_signals_step: "length (signals st) \<le> length (signals (step js st ev))"
proof (cases ev)
  case (Message p msg)
  then show ?thesis
    by (simp add: onMessage_def postMessage_def worker_getCompletions_call_def
        worker_acceptedLastCompletion_call_def Let_def
        split: LanguageServerWorkerRequest.splits option.splits)
qed (simp_all add: onConnectExternal_def onDisconnect_def worker_acceptedLastCompletion_settle_def
       onMessageExternal_def onRuntimeMessage_def onInstalled_def login_def split: option.splits)

lemma length_signals_run: "length (signals st) \<le> length (signals (run js st es))"
proof (induction es arbitrary: st)
  case Nil
  then show ?case by (simp add: run_def)
next
  case (Cons e es)
  from length_signals_step [of st js e] Cons [of "step js st e"]
  show ?case by (simp add: run_Cons)
qed

lemma find_append_None: "find P xs = None \<Longrightarrow> \<not> P x \<Longrightarrow> find P (xs @ [x]) = None"
  by (induction xs) (auto split: if_splits)

lemma find_filter_None: "find P xs = None \<Longrightarrow> find P (filter Q xs) = None"
  by (induction xs) (auto split: if_splits)

lemma settled_gone_step:
  assumes "s < length (signals st)" and "find_suspended (inflight st) s = None"
  shows "find_suspended (inflight (step js st ev)) s = None"
proof (cases ev)
  case (Message p msg)
  with assms show ?thesis
    by (auto simp: find_suspended_def onMessage_def postMessage_def worker_getCompletions_call_def
        worker_acceptedLastCompletion_call_def Let_def find_append_None
        split: LanguageServerWorkerRequest.splits option.splits)
next
  case (Settled s' outcome sent)
  with assms(2) show ?thesis
    by (auto simp: find_suspended_def inflight_onSettled find_filter_None split: option.splits)
qed (use assms(2) in \<open>auto simp: onConnectExternal_def onDisconnect_def
       worker_acceptedLastCompletion_settle_def onMessageExternal_def onRuntimeMessage_def
       onInstalled_def login_def split: option.splits\<close>)

lemma settled_gone_run:
  "s < length (signals st) \<Longrightarrow> find_suspended (inflight st) s = None \<Longrightarrow>
     find_suspended (inflight (run js st es)) s = None"
proof (induction es arbitrary: st)
  case Nil
  then show ?case by (simp add: run_def)
next
  case (Cons e es)
  from Cons.prems length_signals_step [of st js e]
  have "s < length (signals (step js st e))" by simp
  moreover from Cons.prems have "find_suspended (inflight (step js st e)) s = None"
    by (rule settled_gone_step)
  ultimately show ?case by (simp add: run_Cons Cons.IH)
qed

lemma suspended_stays_run:
  "find_suspended (inflight st) s = Some c \<Longrightarrow>
   list_all (\<lambda>e. \<forall>outcome sent. e \<noteq> Settled s outcome sent) es \<Longrightarrow>
     find_suspended (inflight (run js st es)) s = Some c"
proof (induction es arbitrary: st)
  case Nil
  then show ?case by (simp add: run_def)
next
  case (Cons e es)
  from Cons.prems have "find_suspended (inflight (step js st e)) s = Some c"
    by (intro inflight_step_other) simp_all
  with Cons.prems show ?case by (simp add: run_Cons Cons.IH)
qed

lemma outbox_step:
  "outbox (step js st ev) = outbox st @
     (case ev of
        Message p (GetCompletionsRequestMessage r q) \<Rightarrow>
          (case clientMap_get st (name p) of
             None \<Rightarrow> [(p, GetCompletionsResponseMessage r None)]
           | Some a \<Rightarrow> [])
      | Settled s outcome sent \<Rightarrow>
          (case find_suspended (inflight st) s of
             None \<Rightarrow> []
           | Some c \<Rightarrow>
               (case fst (worker_getCompletions_settle st s outcome sent) of
                  Throws \<Rightarrow> []
                | Returns response \<Rightarrow>
                    [(suspended.port c,
                      GetCompletionsResponseMessage (suspended.requestId c)
                        (map_option (responseToJson js) response))]))
      | _ \<Rightarrow> [])"
proof (cases ev)
  case (Message p msg)
  then show ?thesis
    by (simp add: onMessage_def postMessage_def worker_getCompletions_call_def
        worker_acceptedLastCompletion_call_def Let_def
        split: LanguageServerWorkerRequest.splits option.splits)
next
  case (Settled s outcome sent)
  then show ?thesis
    by (simp add: onSettled_def postMessage_def Let_def split_beta
        split: option.splits returned.splits)
qed (simp_all add: onConnectExternal_def onDisconnect_def worker_acceptedLastCompletion_settle_def
       onMessageExternal_def onRuntimeMessage_def onInstalled_def login_def split: option.splits)

subsection \<open>Pending promises of the client\<close>

lemma length_resolve [simp]: "length (resolve ps p res) = length ps"
  by (simp add: resolve_def)








section \<open>The claims\<close>

subsection \<open>Supersession of completion calls\<close>

text \<open>
  C1, as stated: a session has at most one suspended completion call whose cancellation
  token has not fired. It can have two. An endpoint lives as long as its channel: when the
  channel closes the endpoint leaves the registry with its token unfired, and the endpoint
  made for the session's next channel starts without a token, so its first call aborts
  nothing. After \<open>reconnect_run\<close> both calls of session \<open>s\<close> are suspended with unfired tokens.
\<close>

theorem two_unfired_calls_of_one_session:
  "one_channel_per_session [] reconnect_run \<and>
   unfired_of_session (run json0 init_background reconnect_run) ''s'' =
     [\<lparr>suspended.port = port0, requestId = Finite 1, client = 0, signal = 0\<rparr>,
      \<lparr>suspended.port = port1, requestId = Finite 2, client = 1, signal = 1\<rparr>] \<and>
   \<not> length (unfired_of_session (run json0 init_background reconnect_run) ''s'') \<le> 1"
  by (simp add: reconnect_run_def run_def init_background_def onConnectExternal_def onMessage_def
      clientMap_get_def worker_getCompletions_call_def abort_def onDisconnect_def
      unfired_of_session_def getHeaders_def json0_def port0_def port1_def)

text \<open>
  C1, amended: at any instant every endpoint has at most one suspended completion call whose
  token has not fired, and that call's token is the one the endpoint holds, the token of its
  most recent call. Each call of \<^verbatim>\<open>getCompletions\<close> on an endpoint returns a fresh, unfired
  token, stores it in the endpoint, and leaves every older token as it was except the one
  the endpoint held, which it fires.
\<close>

theorem endpoint_has_one_unfired_call:
  "length (unfired_of_endpoint (run js init_background es) a) \<le> 1 \<and>
   (\<forall>c \<in> set (unfired_of_endpoint (run js init_background es) a).
      abortController (endpoints (run js init_background es) ! a) = Some (signal c)) \<and>
   (a < length (endpoints st) \<longrightarrow>
      fst (worker_getCompletions_call st a request) = length (signals st) \<and>
      abortController (endpoints (snd (worker_getCompletions_call st a request)) ! a) =
        Some (length (signals st)) \<and>
      \<not> signals (snd (worker_getCompletions_call st a request)) ! length (signals st) \<and>
      (\<forall>t < length (signals st).
         signals (snd (worker_getCompletions_call st a request)) ! t =
           (signals st ! t \<or> abortController (endpoints st ! a) = Some t)))"
proof -
  have "supersession_inv (run js init_background es)"
    by (rule supersession_inv_run [OF supersession_inv_init])
  then have inv: "length (unfired_of_endpoint (run js init_background es) a) \<le> 1 \<and>
   (\<forall>c \<in> set (unfired_of_endpoint (run js init_background es) a).
      abortController (endpoints (run js init_background es) ! a) = Some (signal c))"
    by (rule supersession_inv_unfired)
  have "signals (snd (worker_getCompletions_call st a request)) ! t =
           (signals st ! t \<or> abortController (endpoints st ! a) = Some t)"
    if "t < length (signals st)" for t
    using that by (simp add: worker_getCompletions_call_def Let_def nth_append abort_nth)
  moreover have "\<not> signals (snd (worker_getCompletions_call st a request)) ! length (signals st)"
    by (simp add: worker_getCompletions_call_def Let_def nth_append)
  moreover have "fst (worker_getCompletions_call st a request) = length (signals st)"
    by (simp add: worker_getCompletions_call_def Let_def)
  moreover have "abortController (endpoints (snd (worker_getCompletions_call st a request)) ! a) =
        Some (length (signals st))" if "a < length (endpoints st)"
    using that by (simp add: worker_getCompletions_call_def Let_def)
  ultimately show ?thesis using inv by blast
qed

text \<open>After two requests on one channel the first token has fired and the second call is the
  endpoint's only unfired one; a third call fires the second token.\<close>

theorem endpoint_one_unfired_witness:
  "unfired_of_endpoint (run json0 init_background supersede_run) 0 =
     [\<lparr>suspended.port = port0, requestId = Finite 2, client = 0, signal = 1\<rparr>] \<and>
   signals (run json0 init_background supersede_run) = [True, False] \<and>
   abortController (endpoints (run json0 init_background supersede_run) ! 0) = Some 1 \<and>
   length (unfired_of_endpoint (run json0 init_background supersede_run) 0) \<le> 1 \<and>
   0 < length (endpoints (run json0 init_background supersede_run)) \<and>
   signals (snd (worker_getCompletions_call (run json0 init_background supersede_run) 0
      \<lparr>GetCompletionsRequest.metadata = None, document = ''c''\<rparr>)) = [True, True, False]"
  using endpoint_has_one_unfired_call [of json0 supersede_run 0
      "run json0 init_background supersede_run"
      "\<lparr>GetCompletionsRequest.metadata = None, document = ''c''\<rparr>"]
  by (simp add: supersede_run_def run_def init_background_def onConnectExternal_def onMessage_def
      clientMap_get_def worker_getCompletions_call_def abort_def
      unfired_of_endpoint_def getHeaders_def json0_def port0_def)

subsection \<open>Failures of the completion call\<close>

text \<open>
  C4, as stated: when the upstream call fails and its own token has not fired, the failure
  message is sent to the process-status interface. Not always: a failure that is a
  \<^verbatim>\<open>ConnectError\<close> with the code \<^verbatim>\<open>Canceled\<close> is skipped by the test \<^verbatim>\<open>err.code != Code.Canceled\<close>,
  and nothing is sent although the token has not fired. In \<open>canceled_run\<close> one request is
  in flight with its token, signal 0, unfired; the upstream call then fails with that code.
\<close>

theorem canceled_failure_sends_no_status:
  "\<not> signals (run json0 init_background canceled_run) ! 0 \<and>
   status (run json0 init_background
      (canceled_run @ [Settled 0 (RejectedWith (ConnectError Canceled ''canceled'')) True])) = [] \<and>
   outbox (run json0 init_background
      (canceled_run @ [Settled 0 (RejectedWith (ConnectError Canceled ''canceled'')) True])) =
     [(port0, GetCompletionsResponseMessage (Finite 1) None)]"
  by (simp add: canceled_run_def run_def init_background_def onConnectExternal_def onMessage_def
      clientMap_get_def worker_getCompletions_call_def abort_def getHeaders_def json0_def
      port0_def onSettled_def find_suspended_def worker_getCompletions_settle_def postMessage_def)

text \<open>
  C4, amended: when the upstream completion call fails and its own token has fired, nothing
  is logged or sent and the result is absent. When the token has not fired, a
  \<^verbatim>\<open>ConnectError\<close> with the code \<^verbatim>\<open>Canceled\<close> is silent in the same way, with an absent result;
  a \<^verbatim>\<open>ConnectError\<close> with any other code, and any other failure, is logged and its message is
  sent to the process-status interface as \<open>{type: 'error', message}\<close>, and when that send
  resolves the result is absent.
\<close>

theorem failure_handling_of_completion_call:
  "(signals st ! s \<longrightarrow>
      worker_getCompletions_settle st s (RejectedWith err :: 'r settled) sent = (Returns None, st)) \<and>
   (\<not> signals st ! s \<longrightarrow>
      worker_getCompletions_settle st s
        (RejectedWith (ConnectError Canceled msg) :: 'r settled) sent = (Returns None, st) \<and>
      (code \<noteq> Canceled \<longrightarrow>
         snd (worker_getCompletions_settle st s
                (RejectedWith (ConnectError code msg) :: 'r settled) sent) =
           st\<lparr>console := console st @ [msg],
              status := status st @ [\<lparr>process_message.type = ''error'', message = msg\<rparr>]\<rparr> \<and>
         fst (worker_getCompletions_settle st s
                (RejectedWith (ConnectError code msg) :: 'r settled) True) = Returns None) \<and>
      snd (worker_getCompletions_settle st s (RejectedWith (OtherError msg) :: 'r settled) sent) =
        st\<lparr>console := console st @ [msg],
           status := status st @ [\<lparr>process_message.type = ''error'', message = msg\<rparr>]\<rparr> \<and>
      fst (worker_getCompletions_settle st s (RejectedWith (OtherError msg) :: 'r settled) True) =
        Returns None)"
  by (simp add: worker_getCompletions_settle_def report_def split: thrown.splits)

text \<open>An unavailable service is reported when the token has not fired, and not when it has.\<close>

theorem failure_handling_witness:
  "\<not> signals (init_background\<lparr>signals := [False, True]\<rparr>) ! 0 \<and>
   signals (init_background\<lparr>signals := [False, True]\<rparr>) ! 1 \<and>
   Unavailable \<noteq> Canceled \<and>
   status (snd (worker_getCompletions_settle (init_background\<lparr>signals := [False, True]\<rparr>) 0
      (RejectedWith (ConnectError Unavailable ''down'') :: string settled) True)) =
     [\<lparr>process_message.type = ''error'', message = ''down''\<rparr>] \<and>
   fst (worker_getCompletions_settle (init_background\<lparr>signals := [False, True]\<rparr>) 0
      (RejectedWith (ConnectError Unavailable ''down'') :: string settled) True) = Returns None \<and>
   status (snd (worker_getCompletions_settle (init_background\<lparr>signals := [False, True]\<rparr>) 1
      (RejectedWith (ConnectError Unavailable ''down'') :: string settled) True)) = []"
  using failure_handling_of_completion_call
      [where st = "init_background\<lparr>signals := [False, True]\<rparr>" and s = 0
         and err = "ConnectError Unavailable ''down''" and msg = "''down''"
         and code = Unavailable and sent = True and ?'r = string]
    failure_handling_of_completion_call
      [where st = "init_background\<lparr>signals := [False, True]\<rparr>" and s = 1
         and err = "ConnectError Unavailable ''down''" and msg = "''down''"
         and code = Unavailable and sent = True and ?'r = string]
  by (simp add: init_background_def)

subsection \<open>One reply for a completion frame\<close>

text \<open>
  C5, as stated: every \<^verbatim>\<open>getCompletions\<close> frame that is not cancelled is answered by exactly
  one response frame. A frame whose request does not decode is not: on an open channel with
  an endpoint, \<^verbatim>\<open>fromJsonString\<close> throws before the endpoint is called, and the listener ends
  without a reply and without a trace. Under \<open>json1\<close> the text \<open>garbage\<close> does not decode, and
  the run with the frame ends in the state of the run without it.
\<close>

theorem undecodable_frame_gets_no_reply:
  "requestFromJson json1 ''garbage'' = None \<and>
   clientMap_get (run json1 init_background [ConnectExternal port0]) (name port0) = Some 0 \<and>
   run json1 init_background
     [ConnectExternal port0, Message port0 (GetCompletionsRequestMessage (Finite 1) ''garbage'')] =
   run json1 init_background [ConnectExternal port0] \<and>
   outbox (run json1 init_background
     [ConnectExternal port0, Message port0 (GetCompletionsRequestMessage (Finite 1) ''garbage'')]) = []"
  by (simp add: run_def init_background_def onConnectExternal_def onMessage_def clientMap_get_def
      json1_def braced_def port0_def)

text \<open>
  C5, amended: a \<^verbatim>\<open>getCompletions\<close> frame with request id \<open>r\<close> on port \<open>p\<close> is treated as follows.
  \<^item> Without an endpoint for the port's name one frame is posted at once, on \<open>p\<close>, with the
    request id \<open>r\<close> and no response, and no listener stays behind.
  \<^item> With an endpoint and a request that does not decode, nothing happens: no frame is posted.
  \<^item> With an endpoint and a request that decodes, nothing is posted yet, and a listener is
    suspended on a fresh signal \<open>s\<close>. The listener stays through every run without a
    \<open>Settled s\<close> event. When the upstream call settles the listener is removed, and it
    posts one frame on \<open>p\<close> with the request id \<open>r\<close>: with the serialized result when the
    call succeeded, and with no response when the call failed and its token had fired, or
    the failure was a \<^verbatim>\<open>ConnectError\<close> with the code \<^verbatim>\<open>Canceled\<close>, or the send of the failure
    message resolved. Once a signal has no listener it never has one again, and a later
    \<open>Settled s\<close> changes nothing.
  \<^item> Every event posts at most one frame, and posts one only as the reply of the frame it
    delivers (no endpoint) or of the listener it resumes, with that listener's port and
    request id; so no other event posts the reply of the listener on \<open>s\<close>.
\<close>

theorem one_reply_per_decoded_frame:
  fixes js :: "'r json"
  shows
  "(clientMap_get st (name p) = None \<longrightarrow>
      outbox (onMessage js st p (GetCompletionsRequestMessage r q)) =
        outbox st @ [(p, GetCompletionsResponseMessage r None)] \<and>
      inflight (onMessage js st p (GetCompletionsRequestMessage r q)) = inflight st) \<and>
   (clientMap_get st (name p) = Some a \<and> requestFromJson js q = None \<longrightarrow>
      onMessage js st p (GetCompletionsRequestMessage r q) = st) \<and>
   (clientMap_get st (name p) = Some a \<and> requestFromJson js q = Some request \<longrightarrow>
      outbox (onMessage js st p (GetCompletionsRequestMessage r q)) = outbox st \<and>
      inflight (onMessage js st p (GetCompletionsRequestMessage r q)) =
        inflight st @
          [\<lparr>suspended.port = p, requestId = r, client = a, signal = length (signals st)\<rparr>] \<and>
      length (signals st) < length (signals (onMessage js st p (GetCompletionsRequestMessage r q)))) \<and>
   (find_suspended (inflight st') s = Some c \<longrightarrow>
      (list_all (\<lambda>e. \<forall>outcome sent. e \<noteq> Settled s outcome sent) es \<longrightarrow>
         find_suspended (inflight (run js st' es)) s = Some c) \<and>
      find_suspended (inflight (onSettled js st' s outcome sent)) s = None \<and>
      outbox (onSettled js st' s (Fulfilled result) sent) =
        outbox st' @
          [(suspended.port c, GetCompletionsResponseMessage (suspended.requestId c)
              (Some (responseToJson js result)))] \<and>
      (signals st' ! s \<or> sent \<longrightarrow>
         outbox (onSettled js st' s (RejectedWith err) sent) =
           outbox st' @
             [(suspended.port c, GetCompletionsResponseMessage (suspended.requestId c) None)]) \<and>
      outbox (onSettled js st' s (RejectedWith (ConnectError Canceled msg)) sent) =
        outbox st' @
          [(suspended.port c, GetCompletionsResponseMessage (suspended.requestId c) None)]) \<and>
   (s < length (signals st') \<and> find_suspended (inflight st') s = None \<longrightarrow>
      find_suspended (inflight (run js st' es)) s = None \<and>
      onSettled js (run js st' es) s outcome sent = run js st' es) \<and>
   length (signals st') \<le> length (signals (run js st' es)) \<and>
   outbox (step js st' ev) = outbox st' @
     (case ev of
        Message p' (GetCompletionsRequestMessage r' q') \<Rightarrow>
          (case clientMap_get st' (name p') of
             None \<Rightarrow> [(p', GetCompletionsResponseMessage r' None)]
           | Some a' \<Rightarrow> [])
      | Settled s' outcome' sent' \<Rightarrow>
          (case find_suspended (inflight st') s' of
             None \<Rightarrow> []
           | Some c' \<Rightarrow>
               (case fst (worker_getCompletions_settle st' s' outcome' sent') of
                  Throws \<Rightarrow> []
                | Returns response \<Rightarrow>
                    [(suspended.port c',
                      GetCompletionsResponseMessage (suspended.requestId c')
                        (map_option (responseToJson js) response))]))
      | _ \<Rightarrow> [])"
proof -
  have arrive_none: "outbox (onMessage js st p (GetCompletionsRequestMessage r q)) =
        outbox st @ [(p, GetCompletionsResponseMessage r None)] \<and>
      inflight (onMessage js st p (GetCompletionsRequestMessage r q)) = inflight st"
    if "clientMap_get st (name p) = None"
    using that by (simp add: onMessage_def postMessage_def)
  have arrive_throw: "onMessage js st p (GetCompletionsRequestMessage r q) = st"
    if "clientMap_get st (name p) = Some a \<and> requestFromJson js q = None"
    using that by (simp add: onMessage_def)
  have arrive_call: "outbox (onMessage js st p (GetCompletionsRequestMessage r q)) = outbox st \<and>
      inflight (onMessage js st p (GetCompletionsRequestMessage r q)) =
        inflight st @
          [\<lparr>suspended.port = p, requestId = r, client = a, signal = length (signals st)\<rparr>] \<and>
      length (signals st) < length (signals (onMessage js st p (GetCompletionsRequestMessage r q)))"
    if "clientMap_get st (name p) = Some a \<and> requestFromJson js q = Some request"
    using that by (simp add: onMessage_def worker_getCompletions_call_def Let_def)
  have gone: "find_suspended (inflight (onSettled js st' s outcome sent)) s = None"
    by (simp add: inflight_onSettled find_suspended_def find_filter_drop split: option.splits)
  have settle: "outbox (onSettled js st' s o' sent) =
      outbox st' @ [(suspended.port c, GetCompletionsResponseMessage (suspended.requestId c)
                      (map_option (responseToJson js) res))]"
    if "find_suspended (inflight st') s = Some c"
      and "fst (worker_getCompletions_settle st' s o' sent) = Returns res" for o' res
    using that by (simp add: onSettled_def postMessage_def Let_def split_beta)
  have fulfilled: "fst (worker_getCompletions_settle st' s (Fulfilled result) sent) =
      Returns (Some result)"
    by (simp add: worker_getCompletions_settle_def)
  have rejected: "fst (worker_getCompletions_settle st' s (RejectedWith err) sent) = Returns None"
    if "signals st' ! s \<or> sent"
    using that by (auto simp: worker_getCompletions_settle_def split: thrown.splits)
  have canceled: "fst (worker_getCompletions_settle st' s
      (RejectedWith (ConnectError Canceled msg)) sent) = Returns None"
    by (simp add: worker_getCompletions_settle_def)
  have never: "find_suspended (inflight (run js st' es)) s = None \<and>
      onSettled js (run js st' es) s outcome sent = run js st' es"
    if "s < length (signals st') \<and> find_suspended (inflight st') s = None"
  proof -
    from that have "find_suspended (inflight (run js st' es)) s = None"
      by (intro settled_gone_run) simp_all
    then show ?thesis by (simp add: onSettled_def)
  qed
  show ?thesis
    using arrive_none arrive_throw arrive_call gone settle [OF _ fulfilled]
      settle [OF _ rejected] settle [OF _ canceled] never
      suspended_stays_run [of st' s c es js] length_signals_run [of st' js es]
      outbox_step [of js st' ev]
    by (intro conjI impI) simp_all
qed

text \<open>
  The request with id 7 stays suspended while another channel opens, is answered once when
  the upstream call returns \<open>completion\<close>, and a second settling of its signal posts nothing;
  without an endpoint the frame is answered at once with no response.
\<close>

theorem one_reply_witness:
  "clientMap_get (run json0 init_background [ConnectExternal port0]) (name port0) = Some 0 \<and>
   requestFromJson json0 ''q'' =
     Some \<lparr>GetCompletionsRequest.metadata = None, document = ''q''\<rparr> \<and>
   find_suspended (inflight (run json0 init_background answered_run)) 0 =
     Some \<lparr>suspended.port = port0, requestId = Finite 7, client = 0, signal = 0\<rparr> \<and>
   find_suspended (inflight (run json0 init_background (answered_run @ [ConnectExternal port1]))) 0 =
     Some \<lparr>suspended.port = port0, requestId = Finite 7, client = 0, signal = 0\<rparr> \<and>
   outbox (run json0 init_background (answered_run @ [ConnectExternal port1])) = [] \<and>
   outbox (run json0 init_background
      (answered_run @ [ConnectExternal port1, Settled 0 (Fulfilled ''completion'') True])) =
     [(port0, GetCompletionsResponseMessage (Finite 7) (Some ''completion''))] \<and>
   0 < length (signals (run json0 init_background
      (answered_run @ [ConnectExternal port1, Settled 0 (Fulfilled ''completion'') True]))) \<and>
   outbox (run json0 init_background
      (answered_run @ [ConnectExternal port1, Settled 0 (Fulfilled ''completion'') True,
                       Settled 0 (Fulfilled ''again'') True])) =
     [(port0, GetCompletionsResponseMessage (Finite 7) (Some ''completion''))] \<and>
   clientMap_get init_background (name port0) = None \<and>
   outbox (run json0 init_background
      [Message port0 (GetCompletionsRequestMessage (Finite 7) ''q'')]) =
     [(port0, GetCompletionsResponseMessage (Finite 7) None)]"
  using one_reply_per_decoded_frame
    [where js = json0 and st = "run json0 init_background [ConnectExternal port0]" and p = port0
       and a = 0 and q = "''q''" and r = "Finite 7"
       and request = "\<lparr>GetCompletionsRequest.metadata = None, document = ''q''\<rparr>"
       and st' = "run json0 init_background answered_run" and s = 0
       and c = "\<lparr>suspended.port = port0, requestId = Finite 7, client = 0, signal = 0\<rparr>"
       and es = "[ConnectExternal port1]" and result = "''completion''" and sent = True]
  by (simp add: answered_run_def run_def init_background_def onConnectExternal_def
      clientMap_get_def port0_def port1_def find_suspended_def json0_def onMessage_def
      worker_getCompletions_call_def abort_def getHeaders_def onSettled_def postMessage_def
      worker_getCompletions_settle_def)

subsection \<open>The registry\<close>

text \<open>
  C8: in a run in which every session has one channel at a time, the registry has an endpoint
  for a name if and only if a channel of that name is open. A new connection installs a
  fresh endpoint under the channel's name, with the name as its session identity; the
  channel's disconnect removes the entry of that name.
\<close>

theorem registry_tracks_open_channels:
  assumes "one_channel_per_session [] es"
  shows "(clientMap_get (run js init_background es) n \<noteq> None) = (n \<in> set (map name (channels [] es)))
     \<and> clientMap_get (onConnectExternal st p) (name p) = Some (length (endpoints st))
     \<and> endpoints (onConnectExternal st p) ! length (endpoints st) =
         \<lparr>LanguageServerServiceWorkerClient.sessionId = name p, abortController = None\<rparr>
     \<and> clientMap_get (onDisconnect st p) (name p) = None"
proof -
  from registry_inv_run [OF registry_inv_init assms, of js]
  have inv: "registry_inv (run js init_background es) (channels [] es)" .
  have "(clientMap_get (run js init_background es) n \<noteq> None) = (n \<in> dom (clientMap (run js init_background es)))"
    using inv by (auto simp: clientMap_get_def registry_inv_def split: option.splits)
  with inv show ?thesis
    by (simp add: registry_inv_def clientMap_get_def onConnectExternal_def onDisconnect_def)
qed

text \<open>A session that loses its channel and opens a new one has the endpoint made for the new
  channel.\<close>

theorem registry_witness:
  "one_channel_per_session [] [ConnectExternal port0, Disconnect port0, ConnectExternal port1 :: string event]
   \<and> clientMap_get (run json0 init_background [ConnectExternal port0, Disconnect port0, ConnectExternal port1]) ''s'' = Some 1
   \<and> channels [] [ConnectExternal port0, Disconnect port0, ConnectExternal port1 :: string event] = [port1]"
  using registry_tracks_open_channels [of "[ConnectExternal port0, Disconnect port0, ConnectExternal port1]" json0 "''s''"]
  by (simp add: port0_def port1_def run_def onConnectExternal_def onDisconnect_def init_background_def clientMap_get_def)

subsection \<open>Login correlation\<close>

text \<open>
  C7: let \<open>m\<close> and \<open>m'\<close> be confirmation messages (a string token, a string state, a type that
  is none of the four handled before) with the state \<open>s\<close>. If \<open>s\<close> is outstanding, \<open>m\<close> removes
  one occurrence of \<open>s\<close> from the outstanding states and triggers the exchange of its token,
  the call of \<^verbatim>\<open>login\<close>. If \<open>s\<close> is not outstanding, \<open>m\<close> is logged and changes nothing else.
  If \<open>s\<close> was registered once, then after \<open>m\<close> and any events that do not register \<open>s\<close> again,
  a later message \<open>m'\<close> with the same state is logged and changes nothing else.
\<close>

theorem auth_state_consumed_once:
  assumes "external_message.type m \<notin> {Some ''user'', Some ''allowlist'', Some ''error'', Some ''success''}"
    and "external_message.token m = Some t" and "external_message.state m = Some s"
    and "external_message.type m' \<notin> {Some ''user'', Some ''allowlist'', Some ''error'', Some ''success''}"
    and "external_message.token m' = Some t'" and "external_message.state m' = Some s"
  shows "(s \<in> set (authStates st) \<longrightarrow>
            onMessageExternal st m =
              st\<lparr>authStates := remove1 s (authStates st), logins := logins st @ [t]\<rparr> \<and>
            count_list (remove1 s (authStates st)) s = count_list (authStates st) s - 1) \<and>
         (s \<notin> set (authStates st) \<longrightarrow>
            onMessageExternal st m = st\<lparr>console := console st @ [''Unexpected state: '' @ s]\<rparr>) \<and>
         (count_list (authStates st) s = 1 \<and> list_all (\<lambda>e. \<not> registers s e) es \<longrightarrow>
            onMessageExternal (run js (onMessageExternal st m) es) m' =
              (run js (onMessageExternal st m) es)
                \<lparr>console := console (run js (onMessageExternal st m) es) @ [''Unexpected state: '' @ s]\<rparr>)"
proof -
  have known: "onMessageExternal st m =
      st\<lparr>authStates := remove1 s (authStates st), logins := logins st @ [t]\<rparr>"
    if "s \<in> set (authStates st)" for st
  proof -
    from that obtain i where i: "indexOf (authStates st) s = Some i"
      by (cases "indexOf (authStates st) s") (simp_all add: indexOf_None)
    with assms(1-3) show ?thesis
      by (simp add: onMessageExternal_def login_def splice1_indexOf)
  qed
  have unknown: "onMessageExternal st m = st\<lparr>console := console st @ [''Unexpected state: '' @ s]\<rparr>"
    if "s \<notin> set (authStates st)" and "external_message.type m \<notin> {Some ''user'', Some ''allowlist'', Some ''error'', Some ''success''}"
    and "external_message.token m = Some t" and "external_message.state m = Some s" for st m t
    using that by (simp add: onMessageExternal_def indexOf_None [symmetric])
  have replay: "onMessageExternal (run js (onMessageExternal st m) es) m' =
              (run js (onMessageExternal st m) es)
                \<lparr>console := console (run js (onMessageExternal st m) es) @ [''Unexpected state: '' @ s]\<rparr>"
    if one: "count_list (authStates st) s = 1" and es: "list_all (\<lambda>e. \<not> registers s e) es"
  proof -
    from one have "s \<in> set (authStates st)" by (metis count_list_0_iff zero_neq_one)
    then have "authStates (onMessageExternal st m) = remove1 s (authStates st)"
      by (simp add: known)
    with one have "s \<notin> set (authStates (onMessageExternal st m))"
      by (simp add: count_one_removed)
    then have "s \<notin> set (authStates (run js (onMessageExternal st m) es))"
      using es by (rule authStates_unregistered_run)
    then show ?thesis using assms(4-6) by (rule unknown)
  qed
  show ?thesis
    using known unknown [OF _ assms(1-3)] replay by (simp add: count_list_remove1)
qed

text \<open>The state \<open>abc\<close> is registered once and confirmed twice: one exchange, one log line.\<close>

theorem auth_state_witness:
  "authStates (onRuntimeMessage init_background register0) = [''abc''] \<and>
   logins (onMessageExternal (onRuntimeMessage init_background register0) confirmation0) = [''tok''] \<and>
   logins (onMessageExternal
      (onMessageExternal (onRuntimeMessage init_background register0) confirmation0) confirmation0) = [''tok''] \<and>
   console (onMessageExternal
      (onMessageExternal (onRuntimeMessage init_background register0) confirmation0) confirmation0) =
      [''Unexpected state: abc'']"
  using auth_state_consumed_once [of confirmation0 "''tok''" "''abc''" confirmation0 "''tok''"
      "onRuntimeMessage init_background register0" "[]" json0]
  by (simp add: confirmation0_def register0_def onRuntimeMessage_def init_background_def run_def
      onMessageExternal_def login_def splice1_def)

subsection \<open>The credential poller and the headers\<close>

text \<open>
  C2, as stated: a refresh on which the credential source returns nothing leaves the cached
  credential unchanged. It does not: the callback assigns whatever \<^verbatim>\<open>getApiKey\<close> returns, so
  a poller holding \<open>''key''\<close> holds \<^verbatim>\<open>undefined\<close> after such a refresh.
\<close>

theorem refresh_without_user_drops_credential:
  "ApiKeyPoller.apiKey
     (ApiKeyPoller_tick \<lparr>ApiKeyPoller.apiKey = Value (Some ''key'')\<rparr> None)
     \<noteq> ApiKeyPoller.apiKey \<lparr>ApiKeyPoller.apiKey = Value (Some ''key'')\<rparr>"
  by (simp add: ApiKeyPoller_tick_def getApiKey_def)

text \<open>
  C2, amended: after a refresh the poller holds exactly what the credential source returned
  on it, whatever it held before; when the source returns nothing, or a user without a
  credential, the poller holds \<^verbatim>\<open>undefined\<close>. The refresh is an assignment of a value: it
  raises nothing, and a reader finds a string or \<^verbatim>\<open>undefined\<close>.
\<close>

theorem refresh_stores_what_the_source_returns:
  "ApiKeyPoller.apiKey (ApiKeyPoller_tick p user) = Value (getApiKey user) \<and>
   ApiKeyPoller.apiKey (ApiKeyPoller_tick p None) = Value None \<and>
   ApiKeyPoller.apiKey (ApiKeyPoller_tick p (Some (u\<lparr>User.apiKey := None\<rparr>))) = Value None \<and>
   ApiKeyPoller.apiKey (ApiKeyPoller_tick p (Some (u\<lparr>User.apiKey := Some k\<rparr>))) = Value (Some k)"
  by (simp add: ApiKeyPoller_tick_def getApiKey_def)

text \<open>
  C9: for a credential \<open>k\<close> and a session identity \<open>s\<close> the headers are the one entry
  \<open>Authorization\<close> with the value \<open>Basic k-s\<close>, and with one credential two sessions have the
  same headers only if they are the same session. These are the headers of the outgoing
  calls: the completion call and the acceptance call of an endpoint carry \<^verbatim>\<open>getHeaders\<close> of
  the endpoint's session identity and of the credential in the request's metadata; and in
  every run, a frame on port \<open>p\<close> whose request decodes with a credential \<open>k\<close> in its metadata
  makes the upstream call with the header \<open>Basic k-\<close> followed by the name of \<open>p\<close>.
\<close>

theorem authorization_header_of_credential_and_session:
  "getHeaders s (Some k) = [(''Authorization'', ''Basic '' @ k @ ''-'' @ s)] \<and>
   (getHeaders s1 (Some k) = getHeaders s2 (Some k)) = (s1 = s2) \<and>
   upstream (snd (worker_getCompletions_call st a request)) =
     upstream st @
       [GetCompletionsCall request (length (signals st))
          (getHeaders (LanguageServerServiceWorkerClient.sessionId (endpoints st ! a))
             (map_option Metadata.apiKey (GetCompletionsRequest.metadata request)))] \<and>
   upstream (worker_acceptedLastCompletion_call st a accept) =
     upstream st @
       [AcceptCompletionCall accept
          (getHeaders (LanguageServerServiceWorkerClient.sessionId (endpoints st ! a))
             (map_option Metadata.apiKey (AcceptCompletionRequest.metadata accept)))] \<and>
   (clientMap_get (run js init_background es) (name p) = Some a \<and>
    requestFromJson js q = Some request \<and> GetCompletionsRequest.metadata request = Some m \<longrightarrow>
      upstream (onMessage js (run js init_background es) p (GetCompletionsRequestMessage r q)) =
        upstream (run js init_background es) @
          [GetCompletionsCall request (length (signals (run js init_background es)))
             [(''Authorization'', ''Basic '' @ Metadata.apiKey m @ ''-'' @ name p)]]) \<and>
   (clientMap_get (run js init_background es) (name p) = Some a \<and>
    acceptFromJson js q = Some accept \<and> AcceptCompletionRequest.metadata accept = Some m \<longrightarrow>
      upstream (onMessage js (run js init_background es) p (AcceptCompletionRequestMessage q)) =
        upstream (run js init_background es) @
          [AcceptCompletionCall accept
             [(''Authorization'', ''Basic '' @ Metadata.apiKey m @ ''-'' @ name p)]])"
proof -
  have "LanguageServerServiceWorkerClient.sessionId (endpoints (run js init_background es) ! a) = name p"
    if "clientMap_get (run js init_background es) (name p) = Some a"
    using that by (rule registered_endpoint_name)
  then show ?thesis
    by (auto simp: getHeaders_def worker_getCompletions_call_def
        worker_acceptedLastCompletion_call_def onMessage_def Let_def)
qed

text \<open>On the channel \<open>s\<close>, requests with the credential \<open>key\<close> go upstream with \<open>Basic key-s\<close>.\<close>

theorem authorization_header_witness:
  "clientMap_get (run json2 init_background [ConnectExternal port0]) (name port0) = Some 0 \<and>
   upstream (run json2 init_background
      [ConnectExternal port0, Message port0 (GetCompletionsRequestMessage (Finite 1) ''key'')]) =
     [GetCompletionsCall
        \<lparr>GetCompletionsRequest.metadata = Some (fst (getMetadata browser0 client0 ide0 ''key'')),
         document = ''key''\<rparr> 0 [(''Authorization'', ''Basic key-s'')]] \<and>
   upstream (run json2 init_background
      [ConnectExternal port0, Message port0 (AcceptCompletionRequestMessage ''key'')]) =
     [AcceptCompletionCall
        \<lparr>AcceptCompletionRequest.metadata = Some (fst (getMetadata browser0 client0 ide0 ''key'')),
         completionId = ''key''\<rparr> [(''Authorization'', ''Basic key-s'')]]"
  using authorization_header_of_credential_and_session
    [where js = json2 and es = "[ConnectExternal port0]" and p = port0 and a = 0
       and q = "''key''" and r = "Finite 1"
       and m = "fst (getMetadata browser0 client0 ide0 ''key'')"
       and request =
         "\<lparr>GetCompletionsRequest.metadata = Some (fst (getMetadata browser0 client0 ide0 ''key'')),
           document = ''key''\<rparr>"
       and accept =
         "\<lparr>AcceptCompletionRequest.metadata = Some (fst (getMetadata browser0 client0 ide0 ''key'')),
           completionId = ''key''\<rparr>"]
  by (simp add: run_def init_background_def onConnectExternal_def clientMap_get_def port0_def
      json2_def getMetadata_def Let_def onMessage_def worker_getCompletions_call_def
      worker_acceptedLastCompletion_call_def getHeaders_def abort_def)

text \<open>
  C10: without a credential \<^verbatim>\<open>getHeaders\<close> returns the empty object, and the completion
  call and the acceptance call are issued all the same, with no header. (A request has no
  credential when it has no metadata: the credential of a metadata message is a string.)
\<close>

theorem calls_without_credential_carry_no_header:
  "getHeaders s None = [] \<and>
   upstream (snd (worker_getCompletions_call st a
       \<lparr>GetCompletionsRequest.metadata = None, document = d\<rparr>)) =
     upstream st @
       [GetCompletionsCall \<lparr>GetCompletionsRequest.metadata = None, document = d\<rparr>
          (length (signals st)) []] \<and>
   upstream (worker_acceptedLastCompletion_call st a
       \<lparr>AcceptCompletionRequest.metadata = None, completionId = i\<rparr>) =
     upstream st @
       [AcceptCompletionCall \<lparr>AcceptCompletionRequest.metadata = None, completionId = i\<rparr> []]"
  by (simp add: getHeaders_def worker_getCompletions_call_def
      worker_acceptedLastCompletion_call_def Let_def)

subsection \<open>The foreground client\<close>




text \<open>
  C6: take a client after any run in which the requests passed to \<^verbatim>\<open>getCompletions\<close> carry
  request ids from the counter, the counter being below \<open>2 ^ 53\<close> (up to where a JavaScript
  number counts exactly). Then the next call of \<^verbatim>\<open>getMetadata\<close> raises the counter by one and
  hands out the new value; this request id is the key under which \<^verbatim>\<open>getCompletions\<close> will
  store the resolver, and no pending resolver is stored under it: every key of
  \<^verbatim>\<open>promiseMap\<close> is a request id not above the old counter. No event lowers the counter.
\<close>

theorem request_ids_are_fresh:
  fixes js :: "'r json" and browser ext uuid es
  defines "c \<equiv> client_run js browser (new_LanguageServerClient ext uuid) es"
  assumes "ids_from_counter js browser (new_LanguageServerClient ext uuid) es"
    and "LanguageServerClient.requestId c < 2 ^ 53"
  shows "LanguageServerClient.requestId (snd (getMetadata browser c ideInfo key)) =
           LanguageServerClient.requestId c + 1 \<and>
         Metadata.requestId (fst (getMetadata browser c ideInfo key)) =
           LanguageServerClient.requestId c + 1 \<and>
         Number (Some (Metadata.requestId (fst (getMetadata browser c ideInfo key)))) =
           Finite (LanguageServerClient.requestId c + 1) \<and>
         promiseMap c (Finite (LanguageServerClient.requestId c + 1)) = None \<and>
         (\<forall>k. promiseMap c k \<noteq> None \<longrightarrow>
            (\<exists>n \<le> LanguageServerClient.requestId c. k = Finite n)) \<and>
         LanguageServerClient.requestId c \<le>
           LanguageServerClient.requestId (client_step js browser c e)"
proof -
  have inv: "client_inv c"
    unfolding c_def by (rule client_inv_run [OF client_inv_new assms(2)])
  from assms(3)
  have incr: "js_incr (LanguageServerClient.requestId c) = LanguageServerClient.requestId c + 1"
    by (rule js_incr_below)
  from assms(3)
  have "round_double (LanguageServerClient.requestId c + 1) = LanguageServerClient.requestId c + 1"
    by (intro round_double_exact) simp
  moreover have "promiseMap c (Finite (LanguageServerClient.requestId c + 1)) = None"
  proof (rule ccontr)
    assume "promiseMap c (Finite (LanguageServerClient.requestId c + 1)) \<noteq> None"
    with inv obtain n where "n \<le> LanguageServerClient.requestId c"
      and "Finite (LanguageServerClient.requestId c + 1) = Finite n"
      unfolding client_inv_def by blast
    then show False by simp
  qed
  moreover note requestId_step_mono [OF inv, of js browser e]
  ultimately show ?thesis
    using inv incr by (simp add: getMetadata_def Let_def Number_def client_inv_def)
qed

text \<open>After one request the counter is 1, request 1 is pending and the next id is 2.\<close>

theorem request_ids_witness:
  "ids_from_counter json0 browser0 client0 [GetMetadata ide0 ''key'', GetCompletions request1] \<and>
   LanguageServerClient.requestId
     (client_run json0 browser0 client0 [GetMetadata ide0 ''key'', GetCompletions request1]) = 1 \<and>
   promiseMap
     (client_run json0 browser0 client0 [GetMetadata ide0 ''key'', GetCompletions request1])
     (Finite 1) = Some 0 \<and>
   Metadata.requestId (fst (getMetadata browser0
     (client_run json0 browser0 client0 [GetMetadata ide0 ''key'', GetCompletions request1])
     ide0 ''key'')) = 2 \<and>
   promiseMap
     (client_run json0 browser0 client0 [GetMetadata ide0 ''key'', GetCompletions request1])
     (Finite 2) = None"
  using request_ids_are_fresh
    [of json0 browser0 "''extension''" "''s''" "[GetMetadata ide0 ''key'', GetCompletions request1]"
        ide0 "''key''" "Tick None"]
  by (simp add: client_run_def client0_def request1_def new_LanguageServerClient_def
      createPort_def getMetadata_def js_incr_def client_getCompletions_def Number_def Let_def)

end
